theory Spec2Isabelle
  imports Complex_Main "HOL-Library.Word"
begin

section \<open>Values, arrays and the store\<close>

text \<open>
  The finite-difference routines of \<^verbatim>\<open>logic_functions.py\<close> are embedded here.
  Python floats and float64 array elements are read as real numbers. The rounding
  of float64 arithmetic is a parameter \<open>fl\<close> of the multi-index routine, whose writes
  to an int64 array depend on it; elsewhere arithmetic is exact. int64 elements are
  64-bit words, read as signed. An exception is a value of type \<open>error\<close>; a routine
  returns \<open>Inl e\<close> where the Python raises \<open>e\<close>.
\<close>

datatype error =
    TypeError | ZeroDivisionError | IndexError | ValueError | OverflowError | Raised string

text \<open>
  A numpy array of the data model: zero-dimensional (one number) or one-dimensional,
  with element type int64 or float64.
\<close>

datatype ndarray =
    IntScalar "64 word"
  | FloatScalar real
  | IntVector "64 word list"
  | FloatVector "real list"

text \<open>The number an int64 element stands for.\<close>

definition int64_value :: "64 word \<Rightarrow> real" where
  "int64_value i = of_int (sint i)"

text \<open>
  Storing a float into an int64 array keeps the integer part (rounding towards zero),
  and raises OverflowError when that integer is not an int64.
\<close>

definition trunc :: "real \<Rightarrow> int" where
  "trunc v = (if 0 \<le> v then \<lfloor>v\<rfloor> else \<lceil>v\<rceil>)"

definition to_int64 :: "real \<Rightarrow> error + 64 word" where
  "to_int64 v =
     (if - (2 ^ 63) \<le> trunc v \<and> trunc v < 2 ^ 63 then Inr (word_of_int (trunc v))
      else Inl OverflowError)"

text \<open>\<^verbatim>\<open>np.array(x, dtype=float)\<close>: a fresh float64 array with the values of \<open>x\<close>.\<close>

fun astype_float :: "ndarray \<Rightarrow> ndarray" where
  "astype_float (IntScalar i) = FloatScalar (int64_value i)"
| "astype_float (FloatScalar v) = FloatScalar v"
| "astype_float (IntVector is) = FloatVector (map int64_value is)"
| "astype_float (FloatVector vs) = FloatVector vs"

text \<open>\<^verbatim>\<open>len(x)\<close> raises TypeError on a zero-dimensional array.\<close>

fun len_nd :: "ndarray \<Rightarrow> error + nat" where
  "len_nd (IntScalar i) = Inl TypeError"
| "len_nd (FloatScalar v) = Inl TypeError"
| "len_nd (IntVector is) = Inr (length is)"
| "len_nd (FloatVector vs) = Inr (length vs)"

text \<open>The number of elements, and the elements as numbers in iteration order.\<close>

fun size_nd :: "ndarray \<Rightarrow> nat" where
  "size_nd (IntScalar i) = 1"
| "size_nd (FloatScalar v) = 1"
| "size_nd (IntVector is) = length is"
| "size_nd (FloatVector vs) = length vs"

fun elems :: "ndarray \<Rightarrow> real list" where
  "elems (IntScalar i) = [int64_value i]"
| "elems (FloatScalar v) = [v]"
| "elems (IntVector is) = map int64_value is"
| "elems (FloatVector vs) = vs"

text \<open>\<^verbatim>\<open>np.zeros_like(x)\<close>: same shape and element type, all zero.\<close>

fun zeros_like :: "ndarray \<Rightarrow> ndarray" where
  "zeros_like (IntScalar i) = IntScalar 0"
| "zeros_like (FloatScalar v) = FloatScalar 0"
| "zeros_like (IntVector is) = IntVector (replicate (length is) 0)"
| "zeros_like (FloatVector vs) = FloatVector (replicate (length vs) 0)"

text \<open>
  \<^verbatim>\<open>x[idx]\<close> and \<^verbatim>\<open>x[idx] = v\<close> at the \<open>idx\<close>-th position of the traversal; a
  position outside the array raises IndexError, and a write goes through the element
  type of the array: into an int64 array it is \<open>to_int64\<close>, which may raise.
\<close>

definition getitem :: "ndarray \<Rightarrow> nat \<Rightarrow> error + real" where
  "getitem a idx = (if idx < size_nd a then Inr (elems a ! idx) else Inl IndexError)"

fun setitem :: "ndarray \<Rightarrow> nat \<Rightarrow> real \<Rightarrow> error + ndarray" where
  "setitem (IntScalar i) idx v =
     (if idx < 1 then
        (case to_int64 v of Inl e \<Rightarrow> Inl e | Inr k \<Rightarrow> Inr (IntScalar k))
      else Inl IndexError)"
| "setitem (FloatScalar u) idx v = (if idx < 1 then Inr (FloatScalar v) else Inl IndexError)"
| "setitem (IntVector is) idx v =
     (if idx < length is then
        (case to_int64 v of Inl e \<Rightarrow> Inl e | Inr k \<Rightarrow> Inr (IntVector (is[idx := k])))
      else Inl IndexError)"
| "setitem (FloatVector vs) idx v =
     (if idx < length vs then Inr (FloatVector (vs[idx := v])) else Inl IndexError)"

text \<open>
  Arrays that are shared between a caller, a routine and the objective live in a
  store. The objective is an arbitrary Python callable: it receives the address of
  its argument, may read and write the whole store and a state \<open>env\<close> of its own, and
  returns a number or raises.
\<close>

type_synonym addr = nat

record 'e world =
  heap :: "addr \<Rightarrow> ndarray"
  fresh :: addr
  env :: 'e

type_synonym 'e objective = "addr \<Rightarrow> 'e world \<Rightarrow> (error + real) \<times> 'e world"

type_synonym 'e scalar_objective = "real \<Rightarrow> 'e world \<Rightarrow> (error + real) \<times> 'e world"

definition alloc :: "ndarray \<Rightarrow> 'e world \<Rightarrow> addr \<times> 'e world" where
  "alloc a w = (fresh w, w\<lparr>heap := (heap w)(fresh w := a), fresh := Suc (fresh w)\<rparr>)"

definition store :: "addr \<Rightarrow> ndarray \<Rightarrow> 'e world \<Rightarrow> 'e world" where
  "store x a w = w\<lparr>heap := (heap w)(x := a)\<rparr>"

section \<open>The routines\<close>

subsection \<open>numerical_derivative\<close>

text \<open>
  \<^verbatim>\<open>def numerical_derivative(f, x, h=1e-5): return (f(x + h) - f(x - h)) / (2 * h)\<close>

  An argument with a default is an \<open>option\<close>; \<open>None\<close> is the call that leaves it out.
  \<open>x\<close> is a Python float, passed by value. The operands are evaluated left to
  right, the division last.
\<close>

definition numerical_derivative ::
  "'e scalar_objective \<Rightarrow> real \<Rightarrow> real option \<Rightarrow> 'e world \<Rightarrow> (error + real) \<times> 'e world" where
  "numerical_derivative f x h_arg w =
     (let h = (case h_arg of None \<Rightarrow> 1 / 100000 | Some h' \<Rightarrow> h') in
      case f (x + h) w of
        (Inl e, w1) \<Rightarrow> (Inl e, w1)
      | (Inr y1, w1) \<Rightarrow>
          (case f (x - h) w1 of
             (Inl e, w2) \<Rightarrow> (Inl e, w2)
           | (Inr y2, w2) \<Rightarrow>
               if 2 * h = 0 then (Inl ZeroDivisionError, w2)
               else (Inr ((y1 - y2) / (2 * h)), w2)))"

subsection \<open>gradient_function\<close>

text \<open>
  \<^verbatim>\<open>np.eye(n)\<close>, the product of a matrix with a number, and the elementwise sum,
  difference and scaling of vectors of equal length.
\<close>

definition eye :: "nat \<Rightarrow> real list list" where
  "eye n = map (\<lambda>i. map (\<lambda>j. if i = j then 1 else 0) [0..<n]) [0..<n]"

definition scale_rows :: "real list list \<Rightarrow> real \<Rightarrow> real list list" where
  "scale_rows m h = map (map (\<lambda>v. v * h)) m"

definition vadd :: "real list \<Rightarrow> real list \<Rightarrow> real list" where
  "vadd xs ys = map2 (+) xs ys"

definition vsub :: "real list \<Rightarrow> real list \<Rightarrow> real list" where
  "vsub xs ys = map2 (-) xs ys"

definition smul :: "real \<Rightarrow> real list \<Rightarrow> real list" where
  "smul c xs = map (\<lambda>v. c * v) xs"

text \<open>
  \<^verbatim>\<open>
  def gradient_function(f, x, h=1e-5):
      x = np.array(x, dtype=float)
      grad = np.zeros_like(x)
      perturb = np.eye(len(x)) * h
      for i in range(len(x)):
          grad[i] = (f(x + perturb[i]) - f(x - perturb[i])) / (2 * h)
      return grad
  \<close>
  The first statement copies the argument, which is not used again: the model takes
  the contents of the caller's array at the time of the call. Each argument of \<open>f\<close>
  is a new array, put in the store at a fresh address. \<open>gf_loop\<close> is the \<open>for\<close> loop
  over the indices still to be visited.
\<close>

fun gf_loop ::
  "'e objective \<Rightarrow> real list \<Rightarrow> real list list \<Rightarrow> real \<Rightarrow> nat list \<Rightarrow> real list \<Rightarrow> 'e world
     \<Rightarrow> (error + real list) \<times> 'e world" where
  "gf_loop f x perturb h [] grad w = (Inr grad, w)"
| "gf_loop f x perturb h (i # rest) grad w =
     (case alloc (FloatVector (vadd x (perturb ! i))) w of
        (p1, w1) \<Rightarrow>
          (case f p1 w1 of
             (Inl e, w2) \<Rightarrow> (Inl e, w2)
           | (Inr y1, w2) \<Rightarrow>
               (case alloc (FloatVector (vsub x (perturb ! i))) w2 of
                  (p2, w3) \<Rightarrow>
                    (case f p2 w3 of
                       (Inl e, w4) \<Rightarrow> (Inl e, w4)
                     | (Inr y2, w4) \<Rightarrow>
                         if 2 * h = 0 then (Inl ZeroDivisionError, w4)
                         else gf_loop f x perturb h rest (grad[i := (y1 - y2) / (2 * h)]) w4))))"

definition gradient_function ::
  "'e objective \<Rightarrow> ndarray \<Rightarrow> real option \<Rightarrow> 'e world \<Rightarrow> (error + ndarray) \<times> 'e world" where
  "gradient_function f x_arg h_arg w =
     (let h = (case h_arg of None \<Rightarrow> 1 / 100000 | Some h' \<Rightarrow> h');
          x = astype_float x_arg;
          grad = zeros_like x
      in case len_nd x of
           Inl e \<Rightarrow> (Inl e, w)
         | Inr n \<Rightarrow>
             (case gf_loop f (elems x) (scale_rows (eye n) h) h [0..<n] (elems grad) w of
                (Inl e, w') \<Rightarrow> (Inl e, w')
              | (Inr g, w') \<Rightarrow> (Inr (FloatVector g), w')))"

subsection \<open>gradient_descent\<close>

text \<open>
  \<^verbatim>\<open>
  def gradient_descent(f, init_x, learning_rate=0.1, num_iterations=100):
      x = np.array(init_x, dtype=float)
      x_history = [x.copy()]
      for _ in range(num_iterations):
          grad = gradient_function(f, x)
          x -= learning_rate * grad
          x_history.append(x.copy())
      return x, x_history
  \<close>
  \<open>x\<close> is a local array that \<open>f\<close> is never given, so it is a value of the loop; the
  iteration count is a natural number. The update is reached only after \<open>gradient_function\<close> returned, hence with \<open>x\<close>
  one-dimensional and \<open>grad\<close> of its length (lemma \<open>gradient_function_shape\<close>):
  there the in-place subtraction is the elementwise one.
\<close>

fun gd_loop ::
  "'e objective \<Rightarrow> ndarray \<Rightarrow> real \<Rightarrow> nat \<Rightarrow> ndarray list \<Rightarrow> 'e world
     \<Rightarrow> (error + ndarray \<times> ndarray list) \<times> 'e world" where
  "gd_loop f x learning_rate 0 x_history w = (Inr (x, x_history), w)"
| "gd_loop f x learning_rate (Suc n) x_history w =
     (case gradient_function f x None w of
        (Inl e, w1) \<Rightarrow> (Inl e, w1)
      | (Inr grad, w1) \<Rightarrow>
          (let x' = FloatVector (vsub (elems x) (smul learning_rate (elems grad)))
           in gd_loop f x' learning_rate n (x_history @ [x']) w1))"

definition gradient_descent ::
  "'e objective \<Rightarrow> ndarray \<Rightarrow> real option \<Rightarrow> nat option \<Rightarrow> 'e world
     \<Rightarrow> (error + ndarray \<times> ndarray list) \<times> 'e world" where
  "gradient_descent f init_x learning_rate_arg num_iterations_arg w =
     (let learning_rate = (case learning_rate_arg of None \<Rightarrow> 1 / 10 | Some a \<Rightarrow> a);
          num_iterations = (case num_iterations_arg of None \<Rightarrow> 100 | Some n \<Rightarrow> n);
          x = astype_float init_x
      in gd_loop f x learning_rate num_iterations [x] w)"

subsection \<open>numerical_gradient\<close>

text \<open>
  \<^verbatim>\<open>
  def numerical_gradient(f, x):
      h = 1e-4
      grad = np.zeros_like(x)
      it = np.nditer(x, flags=['multi_index'], op_flags=['readwrite'])
      while not it.finished:
          idx = it.multi_index
          tmp_val = x[idx]
          x[idx] = float(tmp_val) + h
          fxh1 = f(x)
          x[idx] = tmp_val - h
          fxh2 = f(x)
          grad[idx] = (fxh1 - fxh2) / (2 * h)
          x[idx] = tmp_val
          it.iternext()
      return grad
  \<close>
  Here \<open>x\<close> is the caller's own array, written in place and handed to \<open>f\<close> as it is:
  the routine takes its address. The rounding \<open>fl\<close> of float64 is a parameter: the
  literal \<^verbatim>\<open>1e-4\<close> is \<open>fl (1 / 10000)\<close>, and every sum, difference, product and
  quotient of floats is \<open>fl\<close> of the exact one. \<open>float_of\<close> is the conversion of
  \<open>tmp_val\<close> to a float in \<^verbatim>\<open>float(tmp_val) + h\<close> and \<^verbatim>\<open>tmp_val - h\<close>: an int64
  is rounded, a float64 is itself. The last write, \<^verbatim>\<open>x[idx] = tmp_val\<close>, stores the
  element read at the start. \<^verbatim>\<open>np.nditer\<close> raises ValueError on an array without
  elements. \<open>ng_loop_rounded\<close> is the \<open>while\<close> loop over the positions the iterator
  still has to visit.
\<close>

fun float_of :: "(real \<Rightarrow> real) \<Rightarrow> ndarray \<Rightarrow> real \<Rightarrow> real" where
  "float_of fl (IntScalar i) v = fl v"
| "float_of fl (FloatScalar u) v = v"
| "float_of fl (IntVector is) v = fl v"
| "float_of fl (FloatVector vs) v = v"

fun ng_loop_rounded ::
  "(real \<Rightarrow> real) \<Rightarrow> 'e objective \<Rightarrow> addr \<Rightarrow> real \<Rightarrow> nat list \<Rightarrow> ndarray \<Rightarrow> 'e world
     \<Rightarrow> (error + ndarray) \<times> 'e world" where
  "ng_loop_rounded fl f x h [] grad w = (Inr grad, w)"
| "ng_loop_rounded fl f x h (idx # rest) grad w =
     (case getitem (heap w x) idx of
        Inl e \<Rightarrow> (Inl e, w)
      | Inr tmp_val \<Rightarrow>
     (case setitem (heap w x) idx (fl (float_of fl (heap w x) tmp_val + h)) of
        Inl e \<Rightarrow> (Inl e, w)
      | Inr a1 \<Rightarrow>
     (case f x (store x a1 w) of
        (Inl e, w1) \<Rightarrow> (Inl e, w1)
      | (Inr fxh1, w1) \<Rightarrow>
     (case setitem (heap w1 x) idx (fl (float_of fl (heap w x) tmp_val - h)) of
        Inl e \<Rightarrow> (Inl e, w1)
      | Inr a2 \<Rightarrow>
     (case f x (store x a2 w1) of
        (Inl e, w2) \<Rightarrow> (Inl e, w2)
      | (Inr fxh2, w2) \<Rightarrow>
     if fl (2 * h) = 0 then (Inl ZeroDivisionError, w2) else
     (case setitem grad idx (fl (fl (fxh1 - fxh2) / fl (2 * h))) of
        Inl e \<Rightarrow> (Inl e, w2)
      | Inr grad' \<Rightarrow>
     (case setitem (heap w2 x) idx tmp_val of
        Inl e \<Rightarrow> (Inl e, w2)
      | Inr a3 \<Rightarrow> ng_loop_rounded fl f x h rest grad' (store x a3 w2))))))))"

definition numerical_gradient_rounded ::
  "(real \<Rightarrow> real) \<Rightarrow> 'e objective \<Rightarrow> addr \<Rightarrow> 'e world \<Rightarrow> (error + ndarray) \<times> 'e world" where
  "numerical_gradient_rounded fl f x w =
     (let h = fl (1 / 10000);
          grad = zeros_like (heap w x)
      in if size_nd (heap w x) = 0 then (Inl ValueError, w)
         else ng_loop_rounded fl f x h [0..<size_nd (heap w x)] grad w)"

text \<open>
  The routine and its loop in exact arithmetic (nothing is rounded), the reading of
  float64 of the other routines.
\<close>

definition ng_loop ::
  "'e objective \<Rightarrow> addr \<Rightarrow> real \<Rightarrow> nat list \<Rightarrow> ndarray \<Rightarrow> 'e world
     \<Rightarrow> (error + ndarray) \<times> 'e world" where
  "ng_loop f x h idxs grad w = ng_loop_rounded (\<lambda>v. v) f x h idxs grad w"

definition numerical_gradient ::
  "'e objective \<Rightarrow> addr \<Rightarrow> 'e world \<Rightarrow> (error + ndarray) \<times> 'e world" where
  "numerical_gradient f x w = numerical_gradient_rounded (\<lambda>v. v) f x w"

text \<open>
  What is used of float64 rounding (to nearest): it is monotone, it leaves the
  integers up to \<open>2\<^sup>5\<^sup>3\<close> as they are, and in the normal range its relative error
  is at most \<open>2\<^sup>-\<^sup>5\<^sup>3\<close>.
\<close>

definition rounds_like_float64 :: "(real \<Rightarrow> real) \<Rightarrow> bool" where
  "rounds_like_float64 fl \<longleftrightarrow>
     (\<forall>u v. u \<le> v \<longrightarrow> fl u \<le> fl v)
     \<and> (\<forall>k :: int. \<bar>k\<bar> \<le> 2 ^ 53 \<longrightarrow> fl (of_int k) = of_int k)
     \<and> (\<forall>v. 1 / 2 ^ 1022 \<le> \<bar>v\<bar> \<and> \<bar>v\<bar> \<le> 2 ^ 1023 \<longrightarrow> \<bar>fl v - v\<bar> \<le> \<bar>v\<bar> / 2 ^ 53)"


section \<open>Objectives and the textbook formulas\<close>

text \<open>
  A mathematical function \<open>g\<close> of the values of the point, as a Python callable
  without effects; and the same callable instrumented to append every argument it is
  evaluated at to a log.
\<close>

definition pure_objective :: "(real list \<Rightarrow> real) \<Rightarrow> 'e objective" where
  "pure_objective g p w = (Inr (g (elems (heap w p))), w)"

definition logged_objective :: "(real list \<Rightarrow> real) \<Rightarrow> (real list list) objective" where
  "logged_objective g p w = (Inr (g (elems (heap w p))), w\<lparr>env := env w @ [elems (heap w p)]\<rparr>)"

text \<open>
  An objective that also overwrites the array it is given and counts its calls; one
  that raises at its \<open>k\<close>-th evaluation (from zero) and counts its calls; one that
  always raises.
\<close>

definition scribbling_objective :: "(real list \<Rightarrow> real) \<Rightarrow> nat objective" where
  "scribbling_objective g p w =
     (Inr (g (elems (heap w p))), (store p (FloatVector []) w)\<lparr>env := Suc (env w)\<rparr>)"

definition failing_objective :: "nat \<Rightarrow> (real list \<Rightarrow> real) \<Rightarrow> nat objective" where
  "failing_objective k g p w =
     (if env w = k then Inl (Raised ''objective failed'') else Inr (g (elems (heap w p))),
      w\<lparr>env := Suc (env w)\<rparr>)"

definition raising_objective :: "unit objective" where
  "raising_objective p w = (Inl (Raised ''objective failed''), w)"

text \<open>
  Any objective, instrumented to record the outcome of each of its evaluations (the
  number returned or the exception raised) in a log that the objective itself
  neither sees nor writes.
\<close>

definition traced :: "'e objective \<Rightarrow> ('e \<times> (error + real) list) objective" where
  "traced f p w =
     (case f p \<lparr>heap = heap w, fresh = fresh w, env = fst (env w)\<rparr> of
        (r, w') \<Rightarrow> (r, \<lparr>heap = heap w', fresh = fresh w', env = (env w', snd (env w) @ [r])\<rparr>))"

definition outcomes :: "('e \<times> (error + real) list) world \<Rightarrow> (error + real) list" where
  "outcomes w = snd (env w)"

text \<open>The world of an instrumented run without its log.\<close>

definition plain :: "('e \<times> (error + real) list) world \<Rightarrow> 'e world" where
  "plain w = \<lparr>heap = heap w, fresh = fresh w, env = fst (env w)\<rparr>"

text \<open>
  The central-difference gradient as the specification words it: component \<open>i\<close> is
  \<open>(g(x + h e\<^sub>i) - g(x - h e\<^sub>i)) / (2h)\<close>, with \<open>e\<^sub>i\<close> the \<open>i\<close>-th unit vector; and the
  \<open>2n\<close> points at which it evaluates \<open>g\<close>, in order.
\<close>

definition unit_vec :: "nat \<Rightarrow> nat \<Rightarrow> real list" where
  "unit_vec n i = map (\<lambda>j. if j = i then 1 else 0) [0..<n]"

definition central_gradient :: "(real list \<Rightarrow> real) \<Rightarrow> real list \<Rightarrow> real \<Rightarrow> real list" where
  "central_gradient g xs h =
     map (\<lambda>i. (g (vadd xs (smul h (unit_vec (length xs) i)))
                - g (vsub xs (smul h (unit_vec (length xs) i)))) / (2 * h))
       [0..<length xs]"

definition probes :: "real list \<Rightarrow> real \<Rightarrow> real list list" where
  "probes xs h =
     concat (map (\<lambda>i. [vadd xs (smul h (unit_vec (length xs) i)),
                        vsub xs (smul h (unit_vec (length xs) i))]) [0..<length xs])"

text \<open>One step of the optimizer as the specification words it: \<open>x - \<alpha> \<cdot> grad\<close>.\<close>

definition gd_update :: "(real list \<Rightarrow> real) \<Rightarrow> real \<Rightarrow> real list \<Rightarrow> real list" where
  "gd_update g \<alpha> xs = vsub xs (smul \<alpha> (central_gradient g xs (1 / 100000)))"

text \<open>The points \<open>F x, F (F x), \<dots>\<close> after one to \<open>n\<close> steps.\<close>

primrec iterates :: "('a \<Rightarrow> 'a) \<Rightarrow> nat \<Rightarrow> 'a \<Rightarrow> 'a list" where
  "iterates F 0 x = []"
| "iterates F (Suc n) x = F x # iterates F n (F x)"

text \<open>
  What a property may ask of an objective: that, given any array but the one at
  \<open>a\<close>, it leaves the array at \<open>a\<close> allocated and unchanged; that, given the array at
  \<open>x\<close>, it leaves its contents as they were.
\<close>

definition leaves_alone :: "'e objective \<Rightarrow> addr \<Rightarrow> bool" where
  "leaves_alone f a \<longleftrightarrow>
     (\<forall>p w. p \<noteq> a \<and> a < fresh w \<longrightarrow>
        a < fresh (snd (f p w)) \<and> heap (snd (f p w)) a = heap w a)"


text \<open>
  The exception a result stands for, and the shape of a log of outcomes in which
  nothing is evaluated after a failure: no failure at all, or one failure, last, which
  is the result.
\<close>

definition raised :: "error + 'a \<Rightarrow> error option" where
  "raised r = (case r of Inl e \<Rightarrow> Some e | Inr v \<Rightarrow> None)"

definition stops_at_failure :: "error option \<Rightarrow> (error + real) list \<Rightarrow> bool" where
  "stops_at_failure r new \<longleftrightarrow>
     (\<forall>out\<in>set new. \<not> isl out)
     \<or> (\<exists>pre e. new = pre @ [Inl e] \<and> (\<forall>out\<in>set pre. \<not> isl out) \<and> r = Some e)"

text \<open>
  What an int64 array holds after \<open>x[idx] = float(v) + h\<close> and \<open>x[idx] = v - h\<close> for
  an integer \<open>v\<close> and a small positive \<open>h\<close>; the \<open>2n\<close> arrays the objective is then
  given, in order, for an int64 array with the values \<open>vs\<close>; and the float quotient
  that the multi-index routine computes from them for position \<open>i\<close>, before it is
  stored through \<open>to_int64\<close>.
\<close>

definition stored_plus :: "int \<Rightarrow> int" where
  "stored_plus v = (if v < 0 then v + 1 else v)"

definition stored_minus :: "int \<Rightarrow> int" where
  "stored_minus v = (if 0 < v then v - 1 else v)"

definition int_probes :: "int list \<Rightarrow> real list list" where
  "int_probes vs =
     concat (map (\<lambda>i. [map of_int (vs[i := stored_plus (vs ! i)]),
                        map of_int (vs[i := stored_minus (vs ! i)])]) [0..<length vs])"

definition rounded_quotient ::
  "(real \<Rightarrow> real) \<Rightarrow> (real list \<Rightarrow> real) \<Rightarrow> int list \<Rightarrow> nat \<Rightarrow> real" where
  "rounded_quotient fl g vs i =
     fl (fl (g (map of_int (vs[i := stored_plus (vs ! i)]))
             - g (map of_int (vs[i := stored_minus (vs ! i)])))
         / fl (2 * fl (1 / 10000)))"

text \<open>
  The world after one turn of the loop of \<open>gradient_function\<close> with an objective that
  returns: the two probe arrays are allocated (and, by the logging objective, logged).
\<close>

definition probe_world ::
  "real list \<Rightarrow> real list \<Rightarrow> (real list list) world \<Rightarrow> (real list list) world" where
  "probe_world a b w =
     w\<lparr>heap := (heap w)(fresh w := FloatVector a, Suc (fresh w) := FloatVector b),
       fresh := Suc (Suc (fresh w)),
       env := env w @ [a, b]\<rparr>"

definition probe_cells :: "real list \<Rightarrow> real list \<Rightarrow> 'e world \<Rightarrow> 'e world" where
  "probe_cells a b w =
     w\<lparr>heap := (heap w)(fresh w := FloatVector a, Suc (fresh w) := FloatVector b),
       fresh := Suc (Suc (fresh w))\<rparr>"

text \<open>Objectives and worlds for the concrete runs below.\<close>

definition counting_square :: "nat scalar_objective" where
  "counting_square v w = (Inr (v * v), w\<lparr>env := Suc (env w)\<rparr>)"

definition sum_squares :: "real list \<Rightarrow> real" where
  "sum_squares xs = sum_list (map (\<lambda>v. v * v) xs)"


definition sum_cubes :: "real list \<Rightarrow> real" where
  "sum_cubes xs = sum_list (map (\<lambda>v. v * v * v) xs)"

definition world0 :: "'e \<Rightarrow> 'e world" where
  "world0 e = \<lparr>heap = (\<lambda>_. FloatScalar 0), fresh = 0, env = e\<rparr>"

text \<open>A world whose only array, at address \<open>0\<close>, is \<open>a\<close>.\<close>

definition world_with :: "ndarray \<Rightarrow> 'e \<Rightarrow> 'e world" where
  "world_with a e = \<lparr>heap = (\<lambda>_. FloatScalar 0)(0 := a), fresh = 1, env = e\<rparr>"

section \<open>Basic facts\<close>

lemma trunc_of_int: "trunc (of_int i) = i"
  by (simp add: trunc_def)

lemma to_int64_value: "to_int64 (int64_value i) = Inr i"
  using sint_ge [of i] sint_lt [of i]
  by (simp only: to_int64_def int64_value_def trunc_of_int) simp

lemma heap_store: "heap (store x a w) x = a"
  by (simp add: store_def)

lemma store_back: "heap w x = a \<Longrightarrow> store x a (store x a2 (store x a1 w)) = w"
  by (auto simp: store_def)


lemma float_of_exact: "float_of (\<lambda>v. v) a v = v"
  by (cases a) simp_all

text \<open>The loop and the routine in exact arithmetic, written out.\<close>

lemma ng_loop_Nil: "ng_loop f x h [] grad w = (Inr grad, w)"
  by (simp add: ng_loop_def)

lemma ng_loop_Cons:
  "ng_loop f x h (idx # rest) grad w =
     (case getitem (heap w x) idx of
        Inl e \<Rightarrow> (Inl e, w)
      | Inr tmp_val \<Rightarrow>
     (case setitem (heap w x) idx (tmp_val + h) of
        Inl e \<Rightarrow> (Inl e, w)
      | Inr a1 \<Rightarrow>
     (case f x (store x a1 w) of
        (Inl e, w1) \<Rightarrow> (Inl e, w1)
      | (Inr fxh1, w1) \<Rightarrow>
     (case setitem (heap w1 x) idx (tmp_val - h) of
        Inl e \<Rightarrow> (Inl e, w1)
      | Inr a2 \<Rightarrow>
     (case f x (store x a2 w1) of
        (Inl e, w2) \<Rightarrow> (Inl e, w2)
      | (Inr fxh2, w2) \<Rightarrow>
     if 2 * h = 0 then (Inl ZeroDivisionError, w2) else
     (case setitem grad idx ((fxh1 - fxh2) / (2 * h)) of
        Inl e \<Rightarrow> (Inl e, w2)
      | Inr grad' \<Rightarrow>
     (case setitem (heap w2 x) idx tmp_val of
        Inl e \<Rightarrow> (Inl e, w2)
      | Inr a3 \<Rightarrow> ng_loop f x h rest grad' (store x a3 w2))))))))"
  by (simp add: ng_loop_def float_of_exact split: sum.split prod.split)

lemma numerical_gradient_exact:
  "numerical_gradient f x w =
     (if size_nd (heap w x) = 0 then (Inl ValueError, w)
      else ng_loop f x (1 / 10000) [0..<size_nd (heap w x)] (zeros_like (heap w x)) w)"
  by (simp add: numerical_gradient_def numerical_gradient_rounded_def ng_loop_def)

section \<open>Properties of numerical_derivative\<close>

text \<open>
  C4. For every single-variable function \<open>f\<close>, point \<open>x\<close> and nonzero step \<open>h\<close>,
  \<open>numerical_derivative\<close> returns exactly \<open>(f(x+h) - f(x-h)) / (2h)\<close>. It evaluates
  \<open>f\<close> exactly twice, first at \<open>x + h\<close> and then at \<open>x - h\<close>: the world it leaves is
  the one the second evaluation left, so nothing else (and so not \<open>x\<close>) was written.
\<close>

theorem numerical_derivative_central:
  assumes "h \<noteq> 0"
    and "f (x + h) w = (Inr y1, w1)"
    and "f (x - h) w1 = (Inr y2, w2)"
  shows "numerical_derivative f x (Some h) w = (Inr ((y1 - y2) / (2 * h)), w2)"
  using assms by (simp add: numerical_derivative_def)

theorem numerical_derivative_central_witness:
  "(1 / 100000 :: real) \<noteq> 0
   \<and> counting_square (3 + 1 / 100000) (world0 0) = (Inr (9 + 6 / 100000 + 1 / 10000000000), (world0 0)\<lparr>env := 1\<rparr>)
   \<and> counting_square (3 - 1 / 100000) ((world0 0)\<lparr>env := 1\<rparr>) = (Inr (9 - 6 / 100000 + 1 / 10000000000), (world0 0)\<lparr>env := 2\<rparr>)
   \<and> numerical_derivative counting_square 3 (Some (1 / 100000)) (world0 0) = (Inr 6, (world0 0)\<lparr>env := 2\<rparr>)"
proof -
  have h: "(1 / 100000 :: real) \<noteq> 0" by simp
  have e1: "counting_square (3 + 1 / 100000) (world0 0)
      = (Inr (9 + 6 / 100000 + 1 / 10000000000), (world0 0)\<lparr>env := 1\<rparr>)"
    by (simp add: counting_square_def world0_def)
  have e2: "counting_square (3 - 1 / 100000) ((world0 0)\<lparr>env := 1\<rparr>)
      = (Inr (9 - 6 / 100000 + 1 / 10000000000), (world0 0)\<lparr>env := 2\<rparr>)"
    by (simp add: counting_square_def world0_def)
  from numerical_derivative_central [OF h e1 e2] h e1 e2 show ?thesis by simp
qed


section \<open>Properties of gradient_function\<close>

lemma perturb_row: "i < n \<Longrightarrow> scale_rows (eye n) h ! i = smul h (unit_vec n i)"
  by (auto simp: scale_rows_def eye_def smul_def unit_vec_def)

lemma fold_update_prefix:
  "k \<le> length zs \<Longrightarrow>
   fold (\<lambda>i gr. gr[i := F i]) [0..<k] zs = map F [0..<k] @ drop k zs"
proof (induction k)
  case 0
  then show ?case by simp
next
  case (Suc k)
  then have "k < length zs" by simp
  then have "(map F [0..<k] @ drop k zs)[k := F k] = map F [0..<k] @ F k # drop (Suc k) zs"
    by (simp add: list_update_append upd_conv_take_nth_drop)
  with Suc show ?case by simp
qed

lemma fold_update_all:
  "fold (\<lambda>i gr. gr[i := F i]) [0..<n] (replicate n z) = map F [0..<n]"
  using fold_update_prefix [of n "replicate n z" F] by simp

lemma logged_objective_apply:
  "logged_objective g p w = (Inr (g (elems (heap w p))), w\<lparr>env := env w @ [elems (heap w p)]\<rparr>)"
  by (simp add: logged_objective_def)

lemma gf_loop_logged_step:
  assumes "h \<noteq> 0"
  shows "gf_loop (logged_objective g) xs P h (i # rest) grad w =
     gf_loop (logged_objective g) xs P h rest
       (grad[i := (g (vadd xs (P ! i)) - g (vsub xs (P ! i))) / (2 * h)])
       (probe_world (vadd xs (P ! i)) (vsub xs (P ! i)) w)"
  using assms by (simp add: alloc_def logged_objective_apply probe_world_def)

lemma gf_loop_logged:
  assumes "h \<noteq> 0"
  shows "\<exists>w'. gf_loop (logged_objective g) xs P h is grad w =
       (Inr (fold (\<lambda>i gr. gr[i := (g (vadd xs (P ! i)) - g (vsub xs (P ! i))) / (2 * h)]) is grad), w')
     \<and> env w' = env w @ concat (map (\<lambda>i. [vadd xs (P ! i), vsub xs (P ! i)]) is)"
proof (induction "is" arbitrary: grad w)
  case Nil
  then show ?case by simp
next
  case (Cons i rest)
  let ?w = "probe_world (vadd xs (P ! i)) (vsub xs (P ! i)) w"
  let ?grad = "grad[i := (g (vadd xs (P ! i)) - g (vsub xs (P ! i))) / (2 * h)]"
  from Cons.IH [of ?grad ?w] obtain w' where
    "gf_loop (logged_objective g) xs P h rest ?grad ?w =
       (Inr (fold (\<lambda>i gr. gr[i := (g (vadd xs (P ! i)) - g (vsub xs (P ! i))) / (2 * h)]) rest ?grad), w')"
    and "env w' = env ?w @ concat (map (\<lambda>i. [vadd xs (P ! i), vsub xs (P ! i)]) rest)"
    by blast
  then show ?case
    by (simp only: gf_loop_logged_step [OF assms]) (simp add: probe_world_def)
qed


lemma len_nd_vector:
  "len_nd x = Inr n \<Longrightarrow> astype_float x = FloatVector (elems x) \<and> length (elems x) = n"
  by (cases x) auto

lemma gradient_function_logged:
  assumes "h \<noteq> 0" and "len_nd x = Inr n"
  shows "\<exists>w'. gradient_function (logged_objective g) x (Some h) w
           = (Inr (FloatVector (central_gradient g (elems x) h)), w')
         \<and> env w' = env w @ probes (elems x) h"
proof -
  let ?xs = "elems x"
  let ?P = "scale_rows (eye n) h"
  from assms(2) have x: "astype_float x = FloatVector ?xs" and n: "length ?xs = n"
    by (simp_all add: len_nd_vector)
  let ?F = "\<lambda>i. (g (vadd ?xs (?P ! i)) - g (vsub ?xs (?P ! i))) / (2 * h)"
  from gf_loop_logged [OF assms(1), of g ?xs ?P "[0..<n]" "replicate n 0" w]
  obtain w' where run: "gf_loop (logged_objective g) ?xs ?P h [0..<n] (replicate n 0) w
        = (Inr (fold (\<lambda>i gr. gr[i := ?F i]) [0..<n] (replicate n 0)), w')"
    and log: "env w' = env w @ concat (map (\<lambda>i. [vadd ?xs (?P ! i), vsub ?xs (?P ! i)]) [0..<n])"
    by blast
  have grad: "fold (\<lambda>i gr. gr[i := ?F i]) [0..<n] (replicate n 0) = central_gradient g ?xs h"
    unfolding fold_update_all central_gradient_def n
    by (rule map_cong) (simp_all add: perturb_row)
  have probes: "concat (map (\<lambda>i. [vadd ?xs (?P ! i), vsub ?xs (?P ! i)]) [0..<n]) = probes ?xs h"
    unfolding probes_def n
    by (rule arg_cong [where f = concat], rule map_cong) (simp_all add: perturb_row)
  from run have "gradient_function (logged_objective g) x (Some h) w
      = (Inr (FloatVector (central_gradient g ?xs h)), w')"
    by (simp add: gradient_function_def x n grad)
  with log probes show ?thesis by simp
qed

lemma length_central_gradient: "length (central_gradient g xs h) = length xs"
  by (simp add: central_gradient_def)

lemma length_probes: "length (probes xs h) = 2 * length xs"
  by (simp add: probes_def length_concat comp_def sum_list_triv)

lemma gradient_function_empty:
  assumes "len_nd x = Inr 0"
  shows "gradient_function f x h_arg w = (Inr (FloatVector []), w)"
  using len_nd_vector [OF assms] by (simp add: gradient_function_def)

text \<open>
  C2. For every scalar function \<open>g\<close>, every point \<open>x\<close> of length \<open>n\<close> and every nonzero
  step \<open>h\<close>, \<open>gradient_function\<close> returns a vector of length \<open>n\<close> whose \<open>i\<close>-th entry is
  \<open>(g(x + h e\<^sub>i) - g(x - h e\<^sub>i)) / (2h)\<close>, and evaluates the objective exactly \<open>2n\<close>
  times (the log grows by the \<open>2n\<close> probe points, in order). For \<open>n = 0\<close> it returns
  the empty gradient and leaves the world as it was: no evaluation at all.
\<close>

theorem gradient_function_central:
  "(h \<noteq> 0 \<and> len_nd x = Inr n \<longrightarrow>
      (\<exists>w'. gradient_function (logged_objective g) x (Some h) w
              = (Inr (FloatVector (central_gradient g (elems x) h)), w')
            \<and> length (central_gradient g (elems x) h) = n
            \<and> env w' = env w @ probes (elems x) h
            \<and> length (probes (elems x) h) = 2 * n))
   \<and> (len_nd x = Inr 0 \<longrightarrow>
        gradient_function (logged_objective g) x h_arg w = (Inr (FloatVector []), w))"
proof (intro conjI impI)
  assume a: "h \<noteq> 0 \<and> len_nd x = Inr n"
  then have n: "length (elems x) = n" by (simp add: len_nd_vector)
  from a gradient_function_logged [of h x n g w] obtain w' where
    "gradient_function (logged_objective g) x (Some h) w
       = (Inr (FloatVector (central_gradient g (elems x) h)), w')"
    "env w' = env w @ probes (elems x) h" by blast
  with n show "\<exists>w'. gradient_function (logged_objective g) x (Some h) w
              = (Inr (FloatVector (central_gradient g (elems x) h)), w')
            \<and> length (central_gradient g (elems x) h) = n
            \<and> env w' = env w @ probes (elems x) h
            \<and> length (probes (elems x) h) = 2 * n"
    by (simp add: length_central_gradient length_probes)
next
  assume "len_nd x = Inr 0"
  then show "gradient_function (logged_objective g) x h_arg w = (Inr (FloatVector []), w)"
    by (rule gradient_function_empty)
qed

theorem gradient_function_central_witness:
  "(1 / 100000 :: real) \<noteq> 0 \<and> len_nd (FloatVector [3, 4]) = Inr 2
   \<and> (\<exists>w'. gradient_function (logged_objective sum_squares) (FloatVector [3, 4]) (Some (1 / 100000)) (world0 [])
            = (Inr (FloatVector [6, 8]), w')
         \<and> env w' = [[3 + 1 / 100000, 4], [3 - 1 / 100000, 4], [3, 4 + 1 / 100000], [3, 4 - 1 / 100000]])
   \<and> len_nd (IntVector []) = Inr 0
   \<and> gradient_function (logged_objective sum_squares) (IntVector []) None (world0 [])
        = (Inr (FloatVector []), world0 [])"
proof -
  have cg: "central_gradient sum_squares [3, 4] (1 / 100000) = [6, 8]"
    by (simp add: central_gradient_def unit_vec_def smul_def vadd_def vsub_def sum_squares_def
        upt_conv_Cons)
  have pr: "probes [3, 4] (1 / 100000)
      = [[3 + 1 / 100000, 4], [3 - 1 / 100000, 4], [3, 4 + 1 / 100000], [3, 4 - 1 / 100000]]"
    by (simp add: probes_def unit_vec_def smul_def vadd_def vsub_def upt_conv_Cons)
  from gradient_function_central [of "1 / 100000" "FloatVector [3, 4]" 2 sum_squares "world0 []"]
  have "\<exists>w'. gradient_function (logged_objective sum_squares) (FloatVector [3, 4]) (Some (1 / 100000)) (world0 [])
            = (Inr (FloatVector [6, 8]), w')
         \<and> env w' = [[3 + 1 / 100000, 4], [3 - 1 / 100000, 4], [3, 4 + 1 / 100000], [3, 4 - 1 / 100000]]"
    by (simp add: cg pr world0_def)
  moreover from gradient_function_central [of _ "IntVector []" _ sum_squares "world0 []" None]
  have "gradient_function (logged_objective sum_squares) (IntVector []) None (world0 [])
        = (Inr (FloatVector []), world0 [])"
    by simp
  ultimately show ?thesis by simp
qed

lemma gf_loop_length:
  "gf_loop f xs P h is grad w = (Inr g, w') \<Longrightarrow> length g = length grad"
proof (induction "is" arbitrary: grad w)
  case Nil
  then show ?case by simp
next
  case (Cons i rest)
  from Cons.prems obtain grad1 w1 where "gf_loop f xs P h rest grad1 w1 = (Inr g, w')"
    and "length grad1 = length grad"
    by (auto simp: alloc_def split: prod.splits sum.splits if_splits)
  with Cons.IH show ?case by simp
qed

lemma gradient_function_shape:
  assumes "gradient_function f x h_arg w = (Inr grad, w')"
  shows "\<exists>xs gs. astype_float x = FloatVector xs \<and> grad = FloatVector gs \<and> length gs = length xs"
proof (cases "len_nd (astype_float x)")
  case (Inl e)
  with assms show ?thesis by (simp add: gradient_function_def)
next
  case (Inr n)
  from Inr obtain xs where x: "astype_float x = FloatVector xs" and n: "length xs = n"
    by (cases x) auto
  let ?h = "case h_arg of None \<Rightarrow> 1 / 100000 | Some h' \<Rightarrow> h'"
  obtain r0 w0 where run: "gf_loop f xs (scale_rows (eye n) ?h) ?h [0..<n] (replicate n 0) w = (r0, w0)"
    by (cases "gf_loop f xs (scale_rows (eye n) ?h) ?h [0..<n] (replicate n 0) w")
  with assms x n obtain g where r0: "r0 = Inr g" and g: "grad = FloatVector g"
    by (cases r0) (auto simp: gradient_function_def)
  from gf_loop_length [of f xs _ ?h "[0..<n]" "replicate n 0" w g w0] run r0
  have "length g = n" by simp
  with x n g show ?thesis by simp
qed

lemma alloc_frame:
  "a < fresh w \<Longrightarrow> alloc v w = (p, w') \<Longrightarrow> p \<noteq> a \<and> a < fresh w' \<and> heap w' a = heap w a"
  by (auto simp: alloc_def)

lemma leaves_aloneD:
  "leaves_alone f a \<Longrightarrow> p \<noteq> a \<Longrightarrow> a < fresh w \<Longrightarrow> f p w = (r, w')
     \<Longrightarrow> a < fresh w' \<and> heap w' a = heap w a"
  unfolding leaves_alone_def by (metis snd_conv)

lemma gf_loop_frame:
  assumes "leaves_alone f a"
  shows "a < fresh w \<Longrightarrow> gf_loop f xs P h is grad w = (r, w') \<Longrightarrow>
         a < fresh w' \<and> heap w' a = heap w a"
proof (induction "is" arbitrary: grad w)
  case Nil
  then show ?case by simp
next
  case (Cons i rest)
  obtain p1 w1 where a1: "alloc (FloatVector (vadd xs (P ! i))) w = (p1, w1)"
    by (cases "alloc (FloatVector (vadd xs (P ! i))) w")
  obtain r1 w2 where f1: "f p1 w1 = (r1, w2)" by (cases "f p1 w1")
  from alloc_frame [OF Cons.prems(1) a1]
  have k1: "p1 \<noteq> a" "a < fresh w1" "heap w1 a = heap w a" by simp_all
  from leaves_aloneD [OF assms k1(1,2) f1] k1
  have k2: "a < fresh w2" "heap w2 a = heap w a" by simp_all
  show ?case
  proof (cases r1)
    case (Inl e)
    with Cons.prems(2) a1 f1 k2 show ?thesis by simp
  next
    case (Inr y1)
    obtain p2 w3 where a2: "alloc (FloatVector (vsub xs (P ! i))) w2 = (p2, w3)"
      by (cases "alloc (FloatVector (vsub xs (P ! i))) w2")
    obtain r2 w4 where f2: "f p2 w3 = (r2, w4)" by (cases "f p2 w3")
    from alloc_frame [OF k2(1) a2] k2
    have k3: "p2 \<noteq> a" "a < fresh w3" "heap w3 a = heap w a" by simp_all
    from leaves_aloneD [OF assms k3(1,2) f2] k3
    have k4: "a < fresh w4" "heap w4 a = heap w a" by simp_all
    show ?thesis
    proof (cases r2)
      case (Inl e)
      with Cons.prems(2) a1 f1 Inr a2 f2 k4 show ?thesis by simp
    next
      case r2: (Inr y2)
      show ?thesis
      proof (cases "2 * h = 0")
        case True
        with Cons.prems(2) a1 f1 Inr a2 f2 r2 k4 show ?thesis by simp
      next
        case False
        with Cons.prems(2) a1 f1 Inr a2 f2 r2
        have "gf_loop f xs P h rest (grad[i := (y1 - y2) / (2 * h)]) w4 = (r, w')" by simp
        from Cons.IH [OF k4(1) this] k4 show ?thesis by simp
      qed
    qed
  qed
qed

lemma gradient_function_frame:
  assumes "leaves_alone f a" and "a < fresh w" and "gradient_function f x h_arg w = (r, w')"
  shows "a < fresh w' \<and> heap w' a = heap w a"
proof (cases "len_nd (astype_float x)")
  case (Inl e)
  with assms show ?thesis by (simp add: gradient_function_def)
next
  case (Inr n)
  let ?h = "case h_arg of None \<Rightarrow> 1 / 100000 | Some h' \<Rightarrow> h'"
  obtain r0 w0 where run: "gf_loop f (elems (astype_float x)) (scale_rows (eye n) ?h) ?h [0..<n]
      (elems (zeros_like (astype_float x))) w = (r0, w0)"
    by (cases "gf_loop f (elems (astype_float x)) (scale_rows (eye n) ?h) ?h [0..<n]
      (elems (zeros_like (astype_float x))) w")
  with assms(3) Inr have "w' = w0"
    by (auto simp: gradient_function_def Let_def split: sum.splits)
  with gf_loop_frame [OF assms(1,2) run] show ?thesis by simp
qed

text \<open>
  C7. For every callable \<open>f\<close>, every point and every step (given or not),
  \<open>gradient_function\<close> does not mutate the caller's \<open>x\<close>: the array at the caller's
  address \<open>a\<close> holds the same values after the call as before it. The objective only
  ever receives fresh arrays, so it may even overwrite its argument; what is asked of
  it is that it does not itself reach for the caller's array.
\<close>

theorem gradient_function_keeps_argument:
  assumes "a < fresh w" and "leaves_alone f a"
  shows "heap (snd (gradient_function f (heap w a) h_arg w)) a = heap w a"
  using gradient_function_frame [OF assms(2,1), of "heap w a" h_arg]
  by (cases "gradient_function f (heap w a) h_arg w") simp

lemma leaves_alone_scribbling: "leaves_alone (scribbling_objective g) a"
  by (simp add: leaves_alone_def scribbling_objective_def store_def)

theorem gradient_function_keeps_argument_witness:
  "0 < fresh (snd (alloc (FloatVector [3, 4]) (world0 (0::nat))))
   \<and> leaves_alone (scribbling_objective sum_squares) 0
   \<and> heap (snd (alloc (FloatVector [3, 4]) (world0 (0::nat)))) 0 = FloatVector [3, 4]
   \<and> heap (snd (gradient_function (scribbling_objective sum_squares) (FloatVector [3, 4]) None
        (snd (alloc (FloatVector [3, 4]) (world0 0))))) 0 = FloatVector [3, 4]"
proof -
  let ?w = "snd (alloc (FloatVector [3, 4]) (world0 0)) :: nat world"
  have a: "0 < fresh ?w" by (simp add: alloc_def world0_def)
  have h: "heap ?w 0 = FloatVector [3, 4]" by (simp add: alloc_def world0_def)
  from gradient_function_keeps_argument [OF a leaves_alone_scribbling, of sum_squares None]
    a h leaves_alone_scribbling [of sum_squares 0]
  show ?thesis by simp
qed

section \<open>Properties of gradient_descent\<close>

lemma pure_objective_apply: "pure_objective g p w = (Inr (g (elems (heap w p))), w)"
  by (simp add: pure_objective_def)

lemma gf_loop_pure_step:
  assumes "h \<noteq> 0"
  shows "gf_loop (pure_objective g) xs P h (i # rest) grad w =
     gf_loop (pure_objective g) xs P h rest
       (grad[i := (g (vadd xs (P ! i)) - g (vsub xs (P ! i))) / (2 * h)])
       (probe_cells (vadd xs (P ! i)) (vsub xs (P ! i)) w)"
  using assms by (simp add: alloc_def pure_objective_apply probe_cells_def)

lemma gf_loop_pure:
  assumes "h \<noteq> 0"
  shows "\<exists>w'. gf_loop (pure_objective g) xs P h is grad w =
       (Inr (fold (\<lambda>i gr. gr[i := (g (vadd xs (P ! i)) - g (vsub xs (P ! i))) / (2 * h)]) is grad), w')"
proof (induction "is" arbitrary: grad w)
  case Nil
  then show ?case by simp
next
  case (Cons i rest)
  show ?case
    using Cons.IH [of "grad[i := (g (vadd xs (P ! i)) - g (vsub xs (P ! i))) / (2 * h)]"
        "probe_cells (vadd xs (P ! i)) (vsub xs (P ! i)) w"]
    by (simp only: gf_loop_pure_step [OF assms] fold_simps)
qed

lemma gradient_function_pure:
  assumes "h \<noteq> 0" and "len_nd x = Inr n"
  shows "\<exists>w'. gradient_function (pure_objective g) x (Some h) w
           = (Inr (FloatVector (central_gradient g (elems x) h)), w')"
proof -
  let ?xs = "elems x"
  let ?P = "scale_rows (eye n) h"
  from assms(2) have x: "astype_float x = FloatVector ?xs" and n: "length ?xs = n"
    by (simp_all add: len_nd_vector)
  let ?F = "\<lambda>i. (g (vadd ?xs (?P ! i)) - g (vsub ?xs (?P ! i))) / (2 * h)"
  from gf_loop_pure [OF assms(1), of g ?xs ?P "[0..<n]" "replicate n 0" w]
  obtain w' where run: "gf_loop (pure_objective g) ?xs ?P h [0..<n] (replicate n 0) w
        = (Inr (fold (\<lambda>i gr. gr[i := ?F i]) [0..<n] (replicate n 0)), w')"
    by blast
  have grad: "fold (\<lambda>i gr. gr[i := ?F i]) [0..<n] (replicate n 0) = central_gradient g ?xs h"
    unfolding fold_update_all central_gradient_def n
    by (rule map_cong) (simp_all add: perturb_row)
  from run have "gradient_function (pure_objective g) x (Some h) w
      = (Inr (FloatVector (central_gradient g ?xs h)), w')"
    by (simp add: gradient_function_def x n grad)
  then show ?thesis by blast
qed

lemma gradient_function_default:
  "gradient_function f x None w = gradient_function f x (Some (1 / 100000)) w"
  by (simp add: gradient_function_def)

lemma iterates_funpow: "x # iterates F n x = map (\<lambda>k. (F ^^ k) x) [0..<Suc n]"
proof (induction n arbitrary: x)
  case 0
  then show ?case by simp
next
  case (Suc n)
  have "map (\<lambda>k. (F ^^ k) x) [0..<Suc (Suc n)] = x # map (\<lambda>k. (F ^^ Suc k) x) [0..<Suc n]"
    by (simp only: map_upt_Suc [of _ "Suc n"]) simp
  also have "map (\<lambda>k. (F ^^ Suc k) x) [0..<Suc n] = map (\<lambda>k. (F ^^ k) (F x)) [0..<Suc n]"
    by (simp add: funpow_swap1)
  also have "\<dots> = F x # iterates F n (F x)" by (rule Suc.IH [symmetric])
  finally show ?case by simp
qed

lemma gd_loop_pure:
  "\<exists>w'. gd_loop (pure_objective g) (FloatVector xs) \<alpha> n hist w
     = (Inr (FloatVector ((gd_update g \<alpha> ^^ n) xs),
             hist @ map FloatVector (iterates (gd_update g \<alpha>) n xs)), w')"
proof (induction n arbitrary: xs hist w)
  case 0
  then show ?case by simp
next
  case (Suc n)
  have h: "(1 / 100000 :: real) \<noteq> 0" by simp
  from gradient_function_pure [OF h, of "FloatVector xs" "length xs" g w]
  obtain w1 where g1: "gradient_function (pure_objective g) (FloatVector xs) None w
      = (Inr (FloatVector (central_gradient g xs (1 / 100000))), w1)"
    by (auto simp: gradient_function_default)
  from Suc.IH [of "gd_update g \<alpha> xs" "hist @ [FloatVector (gd_update g \<alpha> xs)]" w1]
  obtain w' where "gd_loop (pure_objective g) (FloatVector (gd_update g \<alpha> xs)) \<alpha> n
       (hist @ [FloatVector (gd_update g \<alpha> xs)]) w1
     = (Inr (FloatVector ((gd_update g \<alpha> ^^ n) (gd_update g \<alpha> xs)),
             (hist @ [FloatVector (gd_update g \<alpha> xs)])
               @ map FloatVector (iterates (gd_update g \<alpha>) n (gd_update g \<alpha> xs))), w')"
    by blast
  then have "gd_loop (pure_objective g) (FloatVector xs) \<alpha> (Suc n) hist w
     = (Inr (FloatVector ((gd_update g \<alpha> ^^ Suc n) xs),
             hist @ map FloatVector (iterates (gd_update g \<alpha>) (Suc n) xs)), w')"
    by (simp add: g1 gd_update_def [symmetric] funpow_swap1)
  then show ?case by blast
qed

lemma gradient_descent_pure:
  assumes "len_nd init_x = Inr n"
  shows "\<exists>w'. gradient_descent (pure_objective g) init_x (Some \<alpha>) (Some N) w
     = (Inr (FloatVector ((gd_update g \<alpha> ^^ N) (elems init_x)),
             map (\<lambda>k. FloatVector ((gd_update g \<alpha> ^^ k) (elems init_x))) [0..<Suc N]), w')"
proof -
  from assms have x: "astype_float init_x = FloatVector (elems init_x)"
    by (simp add: len_nd_vector)
  have "map (\<lambda>k. FloatVector ((gd_update g \<alpha> ^^ k) (elems init_x))) [0..<Suc N]
      = map FloatVector (elems init_x # iterates (gd_update g \<alpha>) N (elems init_x))"
    by (simp only: iterates_funpow map_map comp_def)
  with gd_loop_pure [of g "elems init_x" \<alpha> N "[FloatVector (elems init_x)]" w]
  show ?thesis by (simp add: gradient_descent_def x Let_def)
qed

lemma gradient_descent_zero_iterations:
  "gradient_descent f init_x lr_arg (Some 0) w = (Inr (astype_float init_x, [astype_float init_x]), w)"
  by (simp add: gradient_descent_def Let_def)

lemma central_gradient_sum_squares:
  assumes "h \<noteq> 0"
  shows "central_gradient sum_squares [v] h = [2 * v]"
  using assms
  by (simp add: central_gradient_def unit_vec_def smul_def vadd_def vsub_def sum_squares_def
      field_simps)

lemma gd_update_sum_squares: "gd_update sum_squares \<alpha> [v] = [v - \<alpha> * (2 * v)]"
  by (simp add: gd_update_def central_gradient_sum_squares vsub_def smul_def)

lemma list_of_length_3: "length xs = 3 \<Longrightarrow> xs = [xs ! 0, xs ! 1, xs ! 2]"
  by (cases xs; cases "tl xs"; cases "tl (tl xs)") auto

text \<open>
  C1 (as amended). For every objective \<open>g\<close> (a function of the point's values, evaluated
  without effects), every one-dimensional initial point, learning rate \<open>\<alpha>\<close> and
  iteration count \<open>N\<close>, \<open>gradient_descent\<close> performs exactly \<open>N\<close> updates
  \<open>x\<^sub>k\<^sub>+\<^sub>1 = x\<^sub>k - \<alpha> \<cdot> grad(g, x\<^sub>k)\<close>, returns the point after the \<open>N\<close>-th update and a
  trajectory of exactly \<open>N + 1\<close> snapshots, the first being the (float) initial point
  and the last the returned point. With \<open>N = 0\<close>, for any callable and any initial
  point, it returns the initial point and a one-element trajectory and touches nothing.
\<close>

theorem gradient_descent_trajectory:
  "(len_nd init_x = Inr n \<longrightarrow>
      (\<exists>x hist w'. gradient_descent (pure_objective g) init_x (Some \<alpha>) (Some N) w = (Inr (x, hist), w')
         \<and> x = FloatVector ((gd_update g \<alpha> ^^ N) (elems init_x))
         \<and> length hist = Suc N
         \<and> hist ! 0 = astype_float init_x
         \<and> hist ! N = x
         \<and> (\<forall>k\<le>N. hist ! k = FloatVector ((gd_update g \<alpha> ^^ k) (elems init_x)))
         \<and> (\<forall>k<N. hist ! Suc k = FloatVector (gd_update g \<alpha> (elems (hist ! k))))))
   \<and> gradient_descent f init_x lr_arg (Some 0) w = (Inr (astype_float init_x, [astype_float init_x]), w)"
proof (intro conjI impI)
  assume len: "len_nd init_x = Inr n"
  let ?F = "gd_update g \<alpha>"
  let ?xs = "elems init_x"
  let ?hist = "map (\<lambda>k. FloatVector ((?F ^^ k) ?xs)) [0..<Suc N]"
  from gradient_descent_pure [OF len, of g \<alpha> N w] obtain w' where
    run: "gradient_descent (pure_objective g) init_x (Some \<alpha>) (Some N) w
       = (Inr (FloatVector ((?F ^^ N) ?xs), ?hist), w')" by blast
  have nth: "?hist ! k = FloatVector ((?F ^^ k) ?xs)" if "k \<le> N" for k
    using that nth_map_upt [of k "Suc N" 0 "\<lambda>k. FloatVector ((?F ^^ k) ?xs)"] by simp
  have l: "length ?hist = Suc N" by simp
  have h0: "?hist ! 0 = astype_float init_x"
    using nth [of 0] len by (simp add: len_nd_vector)
  have step: "?hist ! Suc k = FloatVector (?F (elems (?hist ! k)))" if "k < N" for k
    using that nth [of k] nth [of "Suc k"] by simp
  from run l h0 nth step
  show "\<exists>x hist w'. gradient_descent (pure_objective g) init_x (Some \<alpha>) (Some N) w = (Inr (x, hist), w')
         \<and> x = FloatVector ((?F ^^ N) ?xs)
         \<and> length hist = Suc N
         \<and> hist ! 0 = astype_float init_x
         \<and> hist ! N = x
         \<and> (\<forall>k\<le>N. hist ! k = FloatVector ((?F ^^ k) ?xs))
         \<and> (\<forall>k<N. hist ! Suc k = FloatVector (?F (elems (hist ! k))))"
    by (intro exI [of _ "FloatVector ((?F ^^ N) ?xs)"] exI [of _ ?hist] exI [of _ w'] conjI allI impI)
       (simp_all only: le_refl)
next
  show "gradient_descent f init_x lr_arg (Some 0) w = (Inr (astype_float init_x, [astype_float init_x]), w)"
    by (rule gradient_descent_zero_iterations)
qed

lemma gradient_function_scalar:
  "len_nd (astype_float x) = Inl e \<Longrightarrow> gradient_function f x h_arg w = (Inl e, w)"
  by (simp add: gradient_function_def)


theorem gradient_descent_trajectory_witness:
  "len_nd (FloatVector [4]) = Inr 1
   \<and> (\<exists>w'. gradient_descent (pure_objective sum_squares) (FloatVector [4]) (Some (1 / 4)) (Some 2) (world0 ())
          = (Inr (FloatVector [1], [FloatVector [4], FloatVector [2], FloatVector [1]]), w'))
   \<and> gradient_descent (pure_objective sum_squares) (FloatScalar 4) None (Some 0) (world0 ())
        = (Inr (FloatScalar 4, [FloatScalar 4]), world0 ())"
proof -
  let ?F = "gd_update sum_squares (1 / 4)"
  have len: "len_nd (FloatVector [4]) = Inr 1" by simp
  have F0: "(?F ^^ 0) [4] = [4]" by simp
  have F1: "(?F ^^ 1) [4] = [2]" by (simp add: gd_update_sum_squares)
  have F2: "(?F ^^ 2) [4] = [1]" by (simp add: numeral_2_eq_2 gd_update_sum_squares)
  from gradient_descent_trajectory
    [where init_x = "FloatVector [4]" and n = 1 and g = sum_squares and \<alpha> = "1 / 4" and N = 2
       and w = "world0 ()", THEN conjunct1, rule_format, OF len]
  obtain x hist w' where
    run: "gradient_descent (pure_objective sum_squares) (FloatVector [4]) (Some (1 / 4)) (Some 2) (world0 ())
       = (Inr (x, hist), w')"
    and x: "x = FloatVector ((?F ^^ 2) (elems (FloatVector [4])))"
    and l: "length hist = Suc 2"
    and nth: "\<forall>k\<le>2. hist ! k = FloatVector ((?F ^^ k) (elems (FloatVector [4])))"
    by blast
  from gradient_descent_trajectory
    [where init_x = "FloatScalar 4" and f = "pure_objective sum_squares" and lr_arg = None
       and w = "world0 ()"]
  have zero: "gradient_descent (pure_objective sum_squares) (FloatScalar 4) None (Some 0) (world0 ())
        = (Inr (FloatScalar 4, [FloatScalar 4]), world0 ())"
    by simp
  from nth have "hist ! 0 = FloatVector ((?F ^^ 0) [4])" "hist ! 1 = FloatVector ((?F ^^ 1) [4])"
    "hist ! 2 = FloatVector ((?F ^^ 2) [4])"
    by simp_all
  then have "hist ! 0 = FloatVector [4]" "hist ! 1 = FloatVector [2]" "hist ! 2 = FloatVector [1]"
    by (simp_all only: F0 F1 F2)
  moreover from l have "length hist = 3" by simp
  ultimately have "hist = [FloatVector [4], FloatVector [2], FloatVector [1]]"
    using list_of_length_3 [of hist] by simp
  with run x F2 len zero show ?thesis by simp
qed

text \<open>
  The claim C1 as stated, for every initial point, fails on a zero-dimensional one
  (a single number): the first \<open>len(x)\<close> raises TypeError and no update is made.
\<close>

theorem gradient_descent_scalar_counterexample:
  "gradient_descent (pure_objective sum_squares) (FloatScalar 0) (Some (1 / 10)) (Some 1) (world0 ())
     = (Inl TypeError, world0 ())"
  by (simp add: gradient_descent_def Let_def gradient_function_scalar)







section \<open>Default steps\<close>

lemma numerical_derivative_default:
  "numerical_derivative f x None w = numerical_derivative f x (Some (1 / 100000)) w"
  by (simp add: numerical_derivative_def)

lemma gradient_function_logged_run:
  "h \<noteq> 0 \<Longrightarrow> env (snd (gradient_function (logged_objective g) (FloatVector [v]) (Some h) (world0 [])))
     = [[v + h], [v - h]]"
  by (simp add: gradient_function_def logged_objective_apply alloc_def world0_def
      scale_rows_def eye_def vadd_def vsub_def)

lemma numerical_gradient_logged_run:
  "env (snd (numerical_gradient (logged_objective g) 0 (world_with (FloatVector [v]) [])))
     = [[v + 1 / 10000], [v - 1 / 10000]]"
  by (simp add: numerical_gradient_exact ng_loop_Nil ng_loop_Cons logged_objective_apply
      world_with_def getitem_def store_def)

text \<open>
  C5 (as amended). When the caller supplies no step, \<open>numerical_derivative\<close> and
  \<open>gradient_function\<close> use \<open>h = 10\<^sup>-\<^sup>5\<close>; the multi-index routine \<open>numerical_gradient\<close>
  takes no step argument and always uses \<open>h = 10\<^sup>-\<^sup>4\<close> (on an array without elements it
  raises ValueError before any step is used). On a one-element point \<open>[v]\<close>
  the objective is evaluated at \<open>v \<plusminus> 10\<^sup>-\<^sup>5\<close> by the first and at \<open>v \<plusminus> 10\<^sup>-\<^sup>4\<close> by the second.
\<close>

theorem default_steps:
  "numerical_derivative f x None w = numerical_derivative f x (Some (1 / 100000)) w
   \<and> gradient_function f' x' None w = gradient_function f' x' (Some (1 / 100000)) w
   \<and> numerical_gradient f' a w
       = (if size_nd (heap w a) = 0 then (Inl ValueError, w)
          else ng_loop f' a (1 / 10000) [0..<size_nd (heap w a)] (zeros_like (heap w a)) w)
   \<and> env (snd (gradient_function (logged_objective g) (FloatVector [v]) None (world0 [])))
       = [[v + 1 / 100000], [v - 1 / 100000]]
   \<and> env (snd (numerical_gradient (logged_objective g) 0 (world_with (FloatVector [v]) [])))
       = [[v + 1 / 10000], [v - 1 / 10000]]"
proof (intro conjI)
  show "numerical_gradient f' a w
       = (if size_nd (heap w a) = 0 then (Inl ValueError, w)
          else ng_loop f' a (1 / 10000) [0..<size_nd (heap w a)] (zeros_like (heap w a)) w)"
    by (rule numerical_gradient_exact)
  show "env (snd (gradient_function (logged_objective g) (FloatVector [v]) None (world0 [])))
       = [[v + 1 / 100000], [v - 1 / 100000]]"
    using gradient_function_logged_run [of "1 / 100000" g v]
    by (simp add: gradient_function_default)
qed (rule numerical_derivative_default gradient_function_default numerical_gradient_logged_run)+

text \<open>
  The claim C5 as stated gives \<open>gradient_function\<close> the default \<open>10\<^sup>-\<^sup>4\<close>: the call
  without a step differs from the call with \<open>h = 10\<^sup>-\<^sup>4\<close> (it probes \<open>1 \<plusminus> 10\<^sup>-\<^sup>5\<close>).
\<close>

theorem gradient_function_default_counterexample:
  "gradient_function (logged_objective sum_squares) (FloatVector [1]) None (world0 [])
     \<noteq> gradient_function (logged_objective sum_squares) (FloatVector [1]) (Some (1 / 10000)) (world0 [])"
proof
  assume "gradient_function (logged_objective sum_squares) (FloatVector [1]) None (world0 [])
     = gradient_function (logged_objective sum_squares) (FloatVector [1]) (Some (1 / 10000)) (world0 [])"
  then have "env (snd (gradient_function (logged_objective sum_squares) (FloatVector [1]) (Some (1 / 100000)) (world0 [])))
     = env (snd (gradient_function (logged_objective sum_squares) (FloatVector [1]) (Some (1 / 10000)) (world0 [])))"
    by (simp only: gradient_function_default)
  then show False by (simp add: gradient_function_logged_run)
qed

section \<open>The gradient routine of gradient_descent\<close>

lemma gd_loop_step_default:
  "gd_loop f x lr (Suc m) hist0 w0 =
     (case gradient_function f x (Some (1 / 100000)) w0 of
        (Inl e, w1) \<Rightarrow> (Inl e, w1)
      | (Inr grad, w1) \<Rightarrow>
          gd_loop f (FloatVector (vsub (elems x) (smul lr (elems grad)))) lr m
            (hist0 @ [FloatVector (vsub (elems x) (smul lr (elems grad)))]) w1)"
  by (simp add: gradient_function_default Let_def split: prod.split sum.split)

lemma central_gradient_sum_cubes:
  assumes "h \<noteq> 0"
  shows "central_gradient sum_cubes [v] h = [3 * v * v + h * h]"
  using assms
  by (simp add: central_gradient_def unit_vec_def smul_def vadd_def vsub_def sum_cubes_def
      field_simps)

lemma numerical_gradient_sum_cubes:
  "numerical_gradient (pure_objective sum_cubes) 0 (world_with (FloatVector [1]) ())
     = (Inr (FloatVector [3 + 1 / 100000000]), world_with (FloatVector [1]) ())"
  by (simp add: numerical_gradient_exact ng_loop_Nil ng_loop_Cons pure_objective_apply
      world_with_def getitem_def store_def sum_cubes_def)

lemma gradient_descent_sum_cubes:
  "\<exists>w'. gradient_descent (pure_objective sum_cubes) (FloatVector [1]) (Some 1) (Some 1) (world0 ())
     = (Inr (FloatVector [1 - (3 + 1 / 10000000000)],
             [FloatVector [1], FloatVector [1 - (3 + 1 / 10000000000)]]), w')"
proof -
  have len: "len_nd (FloatVector [1]) = Inr 1" by simp
  have F: "gd_update sum_cubes 1 [1] = [1 - (3 + 1 / 10000000000)]"
    by (simp add: gd_update_def central_gradient_sum_cubes vsub_def smul_def)
  from gradient_descent_pure [OF len, of sum_cubes 1 1 "world0 ()"] show ?thesis
    by (simp add: F)
qed

text \<open>
  C9. Every iteration of \<open>gradient_descent\<close> computes its gradient by
  \<open>gradient_function\<close> with the step \<open>10\<^sup>-\<^sup>5\<close>: for any callable, one turn of the loop is
  that call followed by the update; for an objective without effects, each snapshot
  is the previous one minus \<open>\<alpha>\<close> times what \<open>gradient_function\<close> returns there with
  \<open>h = 10\<^sup>-\<^sup>5\<close>. It is not the multi-index routine with \<open>h = 10\<^sup>-\<^sup>4\<close>: on the sum of
  cubes at \<open>[1]\<close> the two would give different updates.
\<close>

theorem gradient_descent_uses_gradient_function:
  "gd_loop f x lr (Suc m) hist0 w0 =
     (case gradient_function f x (Some (1 / 100000)) w0 of
        (Inl e, w1) \<Rightarrow> (Inl e, w1)
      | (Inr grad, w1) \<Rightarrow>
          gd_loop f (FloatVector (vsub (elems x) (smul lr (elems grad)))) lr m
            (hist0 @ [FloatVector (vsub (elems x) (smul lr (elems grad)))]) w1)
   \<and> (len_nd init_x = Inr n \<longrightarrow>
        (\<exists>x' hist w'. gradient_descent (pure_objective g) init_x (Some \<alpha>) (Some N) (w :: 'e world)
             = (Inr (x', hist), w')
           \<and> (\<forall>k<N. \<forall>w1 :: 'e world. \<exists>grad w2.
                 gradient_function (pure_objective g) (hist ! k) (Some (1 / 100000)) w1 = (Inr grad, w2)
                 \<and> hist ! Suc k = FloatVector (vsub (elems (hist ! k)) (smul \<alpha> (elems grad))))))
   \<and> (\<exists>x' hist w' grad w''.
         gradient_descent (pure_objective sum_cubes) (FloatVector [1]) (Some 1) (Some 1) (world0 ())
           = (Inr (x', hist), w')
         \<and> numerical_gradient (pure_objective sum_cubes) 0 (world_with (FloatVector [1]) ())
           = (Inr grad, w'')
         \<and> x' \<noteq> FloatVector (vsub [1] (smul 1 (elems grad))))"
proof (intro conjI impI)
  show "gd_loop f x lr (Suc m) hist0 w0 =
     (case gradient_function f x (Some (1 / 100000)) w0 of
        (Inl e, w1) \<Rightarrow> (Inl e, w1)
      | (Inr grad, w1) \<Rightarrow>
          gd_loop f (FloatVector (vsub (elems x) (smul lr (elems grad)))) lr m
            (hist0 @ [FloatVector (vsub (elems x) (smul lr (elems grad)))]) w1)"
    by (rule gd_loop_step_default)
next
  assume len: "len_nd init_x = Inr n"
  let ?F = "gd_update g \<alpha>"
  let ?xs = "elems init_x"
  let ?hist = "map (\<lambda>k. FloatVector ((?F ^^ k) ?xs)) [0..<Suc N]"
  from gradient_descent_pure [OF len, of g \<alpha> N w] obtain w' where
    run: "gradient_descent (pure_objective g) init_x (Some \<alpha>) (Some N) w
       = (Inr (FloatVector ((?F ^^ N) ?xs), ?hist), w')" by blast
  have nth: "?hist ! k = FloatVector ((?F ^^ k) ?xs)" if "k \<le> N" for k
    using that nth_map_upt [of k "Suc N" 0 "\<lambda>k. FloatVector ((?F ^^ k) ?xs)"] by simp
  have step: "\<exists>grad w2.
        gradient_function (pure_objective g) (?hist ! k) (Some (1 / 100000)) w1 = (Inr grad, w2)
        \<and> ?hist ! Suc k = FloatVector (vsub (elems (?hist ! k)) (smul \<alpha> (elems grad)))"
    if "k < N" for k and w1 :: "'e world"
  proof -
    let ?xk = "(?F ^^ k) ?xs"
    have h: "(1 / 100000 :: real) \<noteq> 0" by simp
    from gradient_function_pure [OF h, of "FloatVector ?xk" "length ?xk" g w1]
    obtain w2 where "gradient_function (pure_objective g) (FloatVector ?xk) (Some (1 / 100000)) w1
        = (Inr (FloatVector (central_gradient g ?xk (1 / 100000))), w2)" by auto
    moreover have "?hist ! k = FloatVector ?xk" using that nth [of k] by simp
    moreover have "?hist ! Suc k = FloatVector (vsub ?xk (smul \<alpha> (central_gradient g ?xk (1 / 100000))))"
      using that nth [of "Suc k"] by (simp add: gd_update_def)
    ultimately show ?thesis by simp
  qed
  from run step
  show "\<exists>x' hist w'. gradient_descent (pure_objective g) init_x (Some \<alpha>) (Some N) w = (Inr (x', hist), w')
           \<and> (\<forall>k<N. \<forall>w1 :: 'e world. \<exists>grad w2.
                 gradient_function (pure_objective g) (hist ! k) (Some (1 / 100000)) w1 = (Inr grad, w2)
                 \<and> hist ! Suc k = FloatVector (vsub (elems (hist ! k)) (smul \<alpha> (elems grad))))"
    by blast
next
  from gradient_descent_sum_cubes obtain w' where
    "gradient_descent (pure_objective sum_cubes) (FloatVector [1]) (Some 1) (Some 1) (world0 ())
     = (Inr (FloatVector [1 - (3 + 1 / 10000000000)],
             [FloatVector [1], FloatVector [1 - (3 + 1 / 10000000000)]]), w')" by blast
  moreover have "FloatVector [1 - (3 + 1 / 10000000000)]
      \<noteq> FloatVector (vsub [1] (smul 1 (elems (FloatVector [3 + 1 / 100000000]))))"
    by (simp add: vsub_def smul_def)
  ultimately show "\<exists>x' hist w' grad w''.
         gradient_descent (pure_objective sum_cubes) (FloatVector [1]) (Some 1) (Some 1) (world0 ())
           = (Inr (x', hist), w')
         \<and> numerical_gradient (pure_objective sum_cubes) 0 (world_with (FloatVector [1]) ())
           = (Inr grad, w'')
         \<and> x' \<noteq> FloatVector (vsub [1] (smul 1 (elems grad)))"
    using numerical_gradient_sum_cubes by blast
qed

theorem gradient_descent_uses_gradient_function_witness:
  "len_nd (FloatVector [4]) = Inr 1
   \<and> (\<exists>x' hist w'. gradient_descent (pure_objective sum_squares) (FloatVector [4]) (Some (1 / 4)) (Some 2) (world0 ())
          = (Inr (x', hist), w')
        \<and> hist ! 0 = FloatVector [4]
        \<and> (\<exists>w2. gradient_function (pure_objective sum_squares) (FloatVector [4]) (Some (1 / 100000)) (world0 ())
              = (Inr (FloatVector [8]), w2))
        \<and> hist ! 1 = FloatVector [2])"
proof -
  let ?F = "gd_update sum_squares (1 / 4)"
  have len: "len_nd (FloatVector [4]) = Inr 1" by simp
  have h: "(1 / 100000 :: real) \<noteq> 0" by simp
  from gradient_descent_uses_gradient_function
    [where init_x = "FloatVector [4]" and n = 1 and g = sum_squares and \<alpha> = "1 / 4" and N = 2
       and w = "world0 ()", THEN conjunct2, THEN conjunct1, rule_format, OF len]
  obtain x' hist w' where
    run: "gradient_descent (pure_objective sum_squares) (FloatVector [4]) (Some (1 / 4)) (Some 2) (world0 ())
       = (Inr (x', hist), w')"
    and step: "\<forall>k<2. \<forall>w1 :: unit world. \<exists>grad w2.
        gradient_function (pure_objective sum_squares) (hist ! k) (Some (1 / 100000)) w1 = (Inr grad, w2)
        \<and> hist ! Suc k = FloatVector (vsub (elems (hist ! k)) (smul (1 / 4) (elems grad)))"
    by blast
  from gradient_descent_pure [OF len, of sum_squares "1 / 4" 2 "world0 ()"] run
  have "hist = map (\<lambda>k. FloatVector ((?F ^^ k) [4])) [0..<Suc 2]" by auto
  then have h0: "hist ! 0 = FloatVector [4]" by (simp add: upt_rec)
  from gradient_function_pure [OF h, of "FloatVector [4]" 1 sum_squares "world0 ()"]
  obtain w2 where g0: "gradient_function (pure_objective sum_squares) (FloatVector [4]) (Some (1 / 100000)) (world0 ())
      = (Inr (FloatVector [8]), w2)"
    by (auto simp: central_gradient_sum_squares)
  from step [rule_format, of 0 "world0 ()"] have "\<exists>grad w2.
        gradient_function (pure_objective sum_squares) (hist ! 0) (Some (1 / 100000)) (world0 ()) = (Inr grad, w2)
        \<and> hist ! Suc 0 = FloatVector (vsub (elems (hist ! 0)) (smul (1 / 4) (elems grad)))"
    by simp
  with h0 g0 have "hist ! 1 = FloatVector [2]"
    by (auto simp: vsub_def smul_def)
  with run h0 g0 len show ?thesis by blast
qed

section \<open>Failures of the objective\<close>

lemma traced_outcomes: "traced f p w = (r, w') \<Longrightarrow> outcomes w' = outcomes w @ [r]"
  by (auto simp: traced_def outcomes_def split: prod.splits)

lemma alloc_outcomes: "alloc a w = (p, w') \<Longrightarrow> outcomes w' = outcomes w"
  by (auto simp: alloc_def outcomes_def)

lemma saf_all_ok: "\<forall>out\<in>set new. \<not> isl out \<Longrightarrow> stops_at_failure r new"
  by (simp add: stops_at_failure_def)

lemma saf_fail: "stops_at_failure (Some e) [Inl e]"
  unfolding stops_at_failure_def by (rule disjI2) simp

lemma saf_append:
  assumes "\<forall>out\<in>set new1. \<not> isl out" and "stops_at_failure r new2"
  shows "stops_at_failure r (new1 @ new2)"
proof -
  from assms(2) consider "\<forall>out\<in>set new2. \<not> isl out"
    | pre e where "new2 = pre @ [Inl e]" "\<forall>out\<in>set pre. \<not> isl out" "r = Some e"
    unfolding stops_at_failure_def by blast
  then show ?thesis
  proof cases
    case 1
    with assms(1) show ?thesis by (auto simp: stops_at_failure_def)
  next
    case 2
    with assms(1) have "new1 @ new2 = (new1 @ pre) @ [Inl e]" "\<forall>out\<in>set (new1 @ pre). \<not> isl out"
      by auto
    with 2(3) show ?thesis unfolding stops_at_failure_def by blast
  qed
qed

lemma saf_returned: "stops_at_failure None new \<Longrightarrow> \<forall>out\<in>set new. \<not> isl out"
  by (auto simp: stops_at_failure_def)

lemma saf_failure:
  assumes "stops_at_failure r new" and "Inl e \<in> set new"
  shows "r = Some e \<and> last new = Inl e"
proof -
  from assms have "\<not> (\<forall>out\<in>set new. \<not> isl out)" by force
  with assms(1) obtain pre e' where new: "new = pre @ [Inl e']"
    and pre: "\<forall>out\<in>set pre. \<not> isl out" and r: "r = Some e'"
    unfolding stops_at_failure_def by blast
  from assms(2) new pre have "e' = e" by force
  with new r show ?thesis by simp
qed

lemma gf_loop_traced:
  "gf_loop (traced f) xs P h is grad w = (r, w') \<Longrightarrow>
     \<exists>new. outcomes w' = outcomes w @ new \<and> stops_at_failure (raised r) new"
proof (induction "is" arbitrary: grad w)
  case Nil
  then show ?case by (simp add: saf_all_ok)
next
  case (Cons i rest)
  obtain p1 w1 where a1: "alloc (FloatVector (vadd xs (P ! i))) w = (p1, w1)"
    by (cases "alloc (FloatVector (vadd xs (P ! i))) w")
  obtain r1 w2 where f1: "traced f p1 w1 = (r1, w2)" by (cases "traced f p1 w1")
  from alloc_outcomes [OF a1] traced_outcomes [OF f1]
  have o2: "outcomes w2 = outcomes w @ [r1]" by simp
  show ?case
  proof (cases r1)
    case (Inl e)
    with Cons.prems a1 f1 have "r = Inl e" "w' = w2" by simp_all
    with o2 Inl show ?thesis by (auto simp: raised_def saf_fail)
  next
    case (Inr y1)
    obtain p2 w3 where a2: "alloc (FloatVector (vsub xs (P ! i))) w2 = (p2, w3)"
      by (cases "alloc (FloatVector (vsub xs (P ! i))) w2")
    obtain r2 w4 where f2: "traced f p2 w3 = (r2, w4)" by (cases "traced f p2 w3")
    from alloc_outcomes [OF a2] traced_outcomes [OF f2] o2 Inr
    have o4: "outcomes w4 = outcomes w @ [Inr y1, r2]" by simp
    show ?thesis
    proof (cases r2)
      case (Inl e)
      with Cons.prems a1 f1 Inr a2 f2 have "r = Inl e" "w' = w4" by simp_all
      moreover have "stops_at_failure (Some e) ([Inr y1] @ [Inl e])"
        by (rule saf_append) (simp_all add: saf_fail)
      ultimately show ?thesis using o4 Inl by (auto simp: raised_def)
    next
      case r2: (Inr y2)
      show ?thesis
      proof (cases "2 * h = 0")
        case True
        with Cons.prems a1 f1 Inr a2 f2 r2 have "r = Inl ZeroDivisionError" "w' = w4" by simp_all
        with o4 r2 show ?thesis by (auto intro!: saf_all_ok)
      next
        case False
        with Cons.prems a1 f1 Inr a2 f2 r2
        have "gf_loop (traced f) xs P h rest (grad[i := (y1 - y2) / (2 * h)]) w4 = (r, w')" by simp
        from Cons.IH [OF this] obtain new where
          new: "outcomes w' = outcomes w4 @ new" "stops_at_failure (raised r) new" by blast
        have "stops_at_failure (raised r) ([Inr y1, Inr y2] @ new)"
          by (rule saf_append) (simp_all add: new)
        with new(1) o4 r2 show ?thesis by auto
      qed
    qed
  qed
qed

lemma gradient_function_traced:
  assumes "gradient_function (traced f) x h_arg w = (r, w')"
  shows "\<exists>new. outcomes w' = outcomes w @ new \<and> stops_at_failure (raised r) new"
proof (cases "len_nd (astype_float x)")
  case (Inl e)
  with assms have "w' = w" by (simp add: gradient_function_def)
  then show ?thesis by (auto intro!: saf_all_ok)
next
  case (Inr n)
  let ?h = "case h_arg of None \<Rightarrow> 1 / 100000 | Some h' \<Rightarrow> h'"
  obtain r0 w0 where run: "gf_loop (traced f) (elems (astype_float x)) (scale_rows (eye n) ?h) ?h [0..<n]
      (elems (zeros_like (astype_float x))) w = (r0, w0)"
    by (cases "gf_loop (traced f) (elems (astype_float x)) (scale_rows (eye n) ?h) ?h [0..<n]
      (elems (zeros_like (astype_float x))) w")
  with assms Inr have "w' = w0" "raised r = raised r0"
    by (auto simp: gradient_function_def Let_def raised_def split: sum.splits)
  with gf_loop_traced [OF run] show ?thesis by simp
qed

lemma gd_loop_traced:
  "gd_loop (traced f) x lr n hist w = (r, w') \<Longrightarrow>
     \<exists>new. outcomes w' = outcomes w @ new \<and> stops_at_failure (raised r) new"
proof (induction n arbitrary: x hist w)
  case 0
  then show ?case by (auto intro!: saf_all_ok)
next
  case (Suc n)
  obtain r1 w1 where g1: "gradient_function (traced f) x None w = (r1, w1)"
    by (cases "gradient_function (traced f) x None w")
  from gradient_function_traced [OF g1] obtain new1 where
    new1: "outcomes w1 = outcomes w @ new1" "stops_at_failure (raised r1) new1" by blast
  show ?case
  proof (cases r1)
    case (Inl e)
    with Suc.prems g1 have "r = Inl e" "w' = w1" by simp_all
    with new1 Inl show ?thesis by (auto simp: raised_def)
  next
    case (Inr grad)
    let ?x = "FloatVector (vsub (elems x) (smul lr (elems grad)))"
    from Suc.prems g1 Inr have "gd_loop (traced f) ?x lr n (hist @ [?x]) w1 = (r, w')"
      by (simp add: Let_def)
    from Suc.IH [OF this] obtain new2 where
      new2: "outcomes w' = outcomes w1 @ new2" "stops_at_failure (raised r) new2" by blast
    from new1(2) Inr have "\<forall>out\<in>set new1. \<not> isl out"
      by (auto simp: raised_def dest: saf_returned)
    then have "stops_at_failure (raised r) (new1 @ new2)" using new2(2) by (rule saf_append)
    with new1(1) new2(1) show ?thesis by auto
  qed
qed

lemma raised_Some: "raised r = Some e \<longleftrightarrow> r = Inl e"
  by (cases r) (simp_all add: raised_def)

lemma store_outcomes: "outcomes (store x a w) = outcomes w"
  by (simp add: store_def outcomes_def)

lemma ng_loop_rounded_traced:
  "ng_loop_rounded fl (traced f) x h is grad w = (r, w') \<Longrightarrow>
     \<exists>new. outcomes w' = outcomes w @ new \<and> stops_at_failure (raised r) new"
proof (induction "is" arbitrary: grad w)
  case Nil
  then show ?case by (simp add: saf_all_ok)
next
  case (Cons idx rest)
  have quit: ?case if "w' = w"
    using that by (auto intro!: saf_all_ok)
  show ?case
  proof (cases "getitem (heap w x) idx")
    case (Inl e)
    with Cons.prems have "w' = w" by simp
      then show ?thesis by (rule quit)
  next
    case tmp: (Inr tmp_val)
    show ?thesis
    proof (cases "setitem (heap w x) idx (fl (float_of fl (heap w x) tmp_val + h))")
      case (Inl e)
      with Cons.prems tmp have "w' = w" by simp
      then show ?thesis by (rule quit)
    next
      case s1: (Inr a1)
      obtain r1 w1 where f1: "traced f x (store x a1 w) = (r1, w1)"
        by (cases "traced f x (store x a1 w)")
      from traced_outcomes [OF f1] have o1: "outcomes w1 = outcomes w @ [r1]"
        by (simp add: store_outcomes)
      show ?thesis
      proof (cases r1)
        case (Inl e)
        with Cons.prems tmp s1 f1 have "r = Inl e" "w' = w1" by simp_all
        with o1 Inl show ?thesis by (auto simp: raised_def saf_fail)
      next
        case y1: (Inr fxh1)
        have quit1: ?thesis if "w' = w1"
          using that o1 y1 by (auto intro!: saf_all_ok)
        show ?thesis
        proof (cases "setitem (heap w1 x) idx (fl (float_of fl (heap w x) tmp_val - h))")
          case (Inl e)
          with Cons.prems tmp s1 f1 y1 have "w' = w1" by simp
      then show ?thesis by (rule quit1)
        next
          case s2: (Inr a2)
          obtain r2 w2 where f2: "traced f x (store x a2 w1) = (r2, w2)"
            by (cases "traced f x (store x a2 w1)")
          from traced_outcomes [OF f2] o1 y1 have o2: "outcomes w2 = outcomes w @ [Inr fxh1, r2]"
            by (simp add: store_outcomes)
          show ?thesis
          proof (cases r2)
            case (Inl e)
            with Cons.prems tmp s1 f1 y1 s2 f2 have "r = Inl e" "w' = w2" by simp_all
            moreover have "stops_at_failure (Some e) ([Inr fxh1] @ [Inl e])"
              by (rule saf_append) (simp_all add: saf_fail)
            ultimately show ?thesis using o2 Inl by (auto simp: raised_def)
          next
            case y2: (Inr fxh2)
            have quit2: ?thesis if "w' = w2"
              using that o2 y2 by (auto intro!: saf_all_ok)
            show ?thesis
            proof (cases "fl (2 * h) = 0")
              case True
              with Cons.prems tmp s1 f1 y1 s2 f2 y2 have "w' = w2" by simp
      then show ?thesis by (rule quit2)
            next
              case h: False
              show ?thesis
              proof (cases "setitem grad idx (fl (fl (fxh1 - fxh2) / fl (2 * h)))")
                case (Inl e)
                with Cons.prems tmp s1 f1 y1 s2 f2 y2 h have "w' = w2" by simp
      then show ?thesis by (rule quit2)
              next
                case s3: (Inr grad1)
                show ?thesis
                proof (cases "setitem (heap w2 x) idx tmp_val")
                  case (Inl e)
                  with Cons.prems tmp s1 f1 y1 s2 f2 y2 h s3 have "w' = w2" by simp
      then show ?thesis by (rule quit2)
                next
                  case s4: (Inr a3)
                  with Cons.prems tmp s1 f1 y1 s2 f2 y2 h s3
                  have "ng_loop_rounded fl (traced f) x h rest grad1 (store x a3 w2) = (r, w')" by simp
                  from Cons.IH [OF this] obtain new where
                    new: "outcomes w' = outcomes w2 @ new" "stops_at_failure (raised r) new"
                    by (auto simp: store_outcomes)
                  have "stops_at_failure (raised r) ([Inr fxh1, Inr fxh2] @ new)"
                    by (rule saf_append) (simp_all add: new)
                  with new(1) o2 y2 show ?thesis by auto
                qed
              qed
            qed
          qed
        qed
      qed
    qed
  qed
qed

lemma numerical_gradient_rounded_traced:
  assumes "numerical_gradient_rounded fl (traced f) x w = (r, w')"
  shows "\<exists>new. outcomes w' = outcomes w @ new \<and> stops_at_failure (raised r) new"
proof (cases "size_nd (heap w x) = 0")
  case True
  with assms have "w' = w" by (simp add: numerical_gradient_rounded_def)
  then show ?thesis by (auto intro!: saf_all_ok)
next
  case False
  with assms show ?thesis
    by (simp add: numerical_gradient_rounded_def ng_loop_rounded_traced)
qed

lemma numerical_gradient_traced:
  "numerical_gradient (traced f) x w = (r, w') \<Longrightarrow>
     \<exists>new. outcomes w' = outcomes w @ new \<and> stops_at_failure (raised r) new"
  by (simp add: numerical_gradient_def numerical_gradient_rounded_traced)

text \<open>
  A run with the instrumented objective is the run with \<open>f\<close> itself, beside the log.
\<close>

lemma traced_plain: "traced f p w = (r, w') \<Longrightarrow> f p (plain w) = (r, plain w')"
  by (auto simp: traced_def plain_def split: prod.splits)

lemma alloc_plain: "alloc a w = (p, w') \<Longrightarrow> alloc a (plain w) = (p, plain w')"
  by (auto simp: alloc_def plain_def)

lemma store_plain: "plain (store x a w) = store x a (plain w)"
  by (simp add: store_def plain_def)

lemma heap_plain: "heap (plain w) = heap w"
  by (simp add: plain_def)

lemma gf_loop_plain:
  "gf_loop (traced f) xs P h is grad w = (r, w') \<Longrightarrow>
   gf_loop f xs P h is grad (plain w) = (r, plain w')"
proof (induction "is" arbitrary: grad w)
  case Nil
  then show ?case by simp
next
  case (Cons i rest)
  obtain p1 w1 where a1: "alloc (FloatVector (vadd xs (P ! i))) w = (p1, w1)"
    by (cases "alloc (FloatVector (vadd xs (P ! i))) w")
  obtain r1 w2 where f1: "traced f p1 w1 = (r1, w2)" by (cases "traced f p1 w1")
  note a1' = alloc_plain [OF a1] and f1' = traced_plain [OF f1]
  show ?case
  proof (cases r1)
    case (Inl e)
    with Cons.prems a1 f1 a1' f1' show ?thesis by simp
  next
    case (Inr y1)
    obtain p2 w3 where a2: "alloc (FloatVector (vsub xs (P ! i))) w2 = (p2, w3)"
      by (cases "alloc (FloatVector (vsub xs (P ! i))) w2")
    obtain r2 w4 where f2: "traced f p2 w3 = (r2, w4)" by (cases "traced f p2 w3")
    note a2' = alloc_plain [OF a2] and f2' = traced_plain [OF f2]
    show ?thesis
    proof (cases r2)
      case (Inl e)
      with Cons.prems a1 f1 a1' f1' Inr a2 f2 a2' f2' show ?thesis by simp
    next
      case r2: (Inr y2)
      show ?thesis
      proof (cases "2 * h = 0")
        case True
        with Cons.prems a1 f1 a1' f1' Inr a2 f2 a2' f2' r2 show ?thesis by simp
      next
        case False
        with Cons.prems a1 f1 Inr a2 f2 r2
        have "gf_loop (traced f) xs P h rest (grad[i := (y1 - y2) / (2 * h)]) w4 = (r, w')" by simp
        from Cons.IH [OF this] False a1' f1' Inr a2' f2' r2 show ?thesis by simp
      qed
    qed
  qed
qed

lemma gradient_function_plain:
  assumes "gradient_function (traced f) x h_arg w = (r, w')"
  shows "gradient_function f x h_arg (plain w) = (r, plain w')"
proof (cases "len_nd (astype_float x)")
  case (Inl e)
  with assms show ?thesis by (auto simp: gradient_function_def)
next
  case (Inr n)
  let ?h = "case h_arg of None \<Rightarrow> 1 / 100000 | Some h' \<Rightarrow> h'"
  obtain r0 w0 where run: "gf_loop (traced f) (elems (astype_float x)) (scale_rows (eye n) ?h) ?h [0..<n]
      (elems (zeros_like (astype_float x))) w = (r0, w0)"
    by (cases "gf_loop (traced f) (elems (astype_float x)) (scale_rows (eye n) ?h) ?h [0..<n]
      (elems (zeros_like (astype_float x))) w")
  from gf_loop_plain [OF run] run assms Inr show ?thesis
    by (auto simp: gradient_function_def Let_def split: sum.splits)
qed

lemma gd_loop_plain:
  "gd_loop (traced f) x lr n hist w = (r, w') \<Longrightarrow> gd_loop f x lr n hist (plain w) = (r, plain w')"
proof (induction n arbitrary: x hist w)
  case 0
  then show ?case by auto
next
  case (Suc n)
  obtain r1 w1 where g1: "gradient_function (traced f) x None w = (r1, w1)"
    by (cases "gradient_function (traced f) x None w")
  note g1' = gradient_function_plain [OF g1]
  show ?case
  proof (cases r1)
    case (Inl e)
    with Suc.prems g1 g1' show ?thesis by simp
  next
    case (Inr grad)
    let ?x = "FloatVector (vsub (elems x) (smul lr (elems grad)))"
    from Suc.prems g1 Inr have "gd_loop (traced f) ?x lr n (hist @ [?x]) w1 = (r, w')"
      by (simp add: Let_def)
    from Suc.IH [OF this] g1' Inr show ?thesis by (simp add: Let_def)
  qed
qed

lemma gradient_descent_plain:
  "gradient_descent (traced f) init_x lr_arg n_arg w = (r, w') \<Longrightarrow>
   gradient_descent f init_x lr_arg n_arg (plain w) = (r, plain w')"
  by (simp add: gradient_descent_def Let_def gd_loop_plain)

lemma ng_loop_rounded_plain:
  "ng_loop_rounded fl (traced f) x h is grad w = (r, w') \<Longrightarrow> ng_loop_rounded fl f x h is grad (plain w) = (r, plain w')"
proof (induction "is" arbitrary: grad w)
  case Nil
  then show ?case by simp
next
  case (Cons idx rest)
  let ?run = "ng_loop_rounded fl (traced f) x h (idx # rest) grad w"
  show ?case
  proof (cases "getitem (heap w x) idx")
    case (Inl e)
    then have "?run = (Inl e, w)" by simp
    with Cons.prems have "r = Inl e" "w' = w" by simp_all
    with Inl show ?thesis by (simp add: heap_plain)
  next
    case tmp: (Inr tmp_val)
    show ?thesis
    proof (cases "setitem (heap w x) idx (fl (float_of fl (heap w x) tmp_val + h))")
      case (Inl e)
      with tmp have "?run = (Inl e, w)" by simp
      with Cons.prems have "r = Inl e" "w' = w" by simp_all
      with tmp Inl show ?thesis by (simp add: heap_plain)
    next
      case s1: (Inr a1)
      obtain r1 w1 where f1: "traced f x (store x a1 w) = (r1, w1)"
        by (cases "traced f x (store x a1 w)")
      from traced_plain [OF f1] have f1': "f x (store x a1 (plain w)) = (r1, plain w1)"
        by (simp add: store_plain)
      show ?thesis
      proof (cases r1)
        case (Inl e)
        with tmp s1 f1 have "?run = (Inl e, w1)" by simp
        with Cons.prems have "r = Inl e" "w' = w1" by simp_all
        with tmp s1 f1' Inl show ?thesis by (simp add: heap_plain)
      next
        case y1: (Inr fxh1)
        show ?thesis
        proof (cases "setitem (heap w1 x) idx (fl (float_of fl (heap w x) tmp_val - h))")
          case (Inl e)
          with tmp s1 f1 y1 have "?run = (Inl e, w1)" by simp
          with Cons.prems have "r = Inl e" "w' = w1" by simp_all
          with tmp s1 f1' y1 Inl show ?thesis by (simp add: heap_plain)
        next
          case s2: (Inr a2)
          obtain r2 w2 where f2: "traced f x (store x a2 w1) = (r2, w2)"
            by (cases "traced f x (store x a2 w1)")
          from traced_plain [OF f2] have f2': "f x (store x a2 (plain w1)) = (r2, plain w2)"
            by (simp add: store_plain)
          show ?thesis
          proof (cases r2)
            case (Inl e)
            with tmp s1 f1 y1 s2 f2 have "?run = (Inl e, w2)" by simp
            with Cons.prems have "r = Inl e" "w' = w2" by simp_all
            with tmp s1 f1' y1 s2 f2' Inl show ?thesis by (simp add: heap_plain)
          next
            case y2: (Inr fxh2)
            show ?thesis
            proof (cases "fl (2 * h) = 0")
              case True
              with tmp s1 f1 y1 s2 f2 y2 have "?run = (Inl ZeroDivisionError, w2)" by simp
              with Cons.prems have "r = Inl ZeroDivisionError" "w' = w2" by simp_all
              with tmp s1 f1' y1 s2 f2' y2 True show ?thesis by (simp add: heap_plain)
            next
              case h: False
              show ?thesis
              proof (cases "setitem grad idx (fl (fl (fxh1 - fxh2) / fl (2 * h)))")
                case (Inl e)
                with tmp s1 f1 y1 s2 f2 y2 h have "?run = (Inl e, w2)" by simp
                with Cons.prems have "r = Inl e" "w' = w2" by simp_all
                with tmp s1 f1' y1 s2 f2' y2 h Inl show ?thesis by (simp add: heap_plain)
              next
                case s3: (Inr grad1)
                show ?thesis
                proof (cases "setitem (heap w2 x) idx tmp_val")
                  case (Inl e)
                  with tmp s1 f1 y1 s2 f2 y2 h s3 have "?run = (Inl e, w2)" by simp
                  with Cons.prems have "r = Inl e" "w' = w2" by simp_all
                  with tmp s1 f1' y1 s2 f2' y2 h s3 Inl show ?thesis by (simp add: heap_plain)
                next
                  case s4: (Inr a3)
                  with Cons.prems tmp s1 f1 y1 s2 f2 y2 h s3
                  have "ng_loop_rounded fl (traced f) x h rest grad1 (store x a3 w2) = (r, w')" by simp
                  from Cons.IH [OF this] tmp s1 f1' y1 s2 f2' y2 h s3 s4 show ?thesis
                    by (simp add: heap_plain store_plain)
                qed
              qed
            qed
          qed
        qed
      qed
    qed
  qed
qed

lemma numerical_gradient_rounded_plain:
  assumes "numerical_gradient_rounded fl (traced f) x w = (r, w')"
  shows "numerical_gradient_rounded fl f x (plain w) = (r, plain w')"
proof (cases "size_nd (heap w x) = 0")
  case True
  with assms show ?thesis by (auto simp: numerical_gradient_rounded_def heap_plain)
next
  case False
  with assms show ?thesis
    by (simp add: numerical_gradient_rounded_def ng_loop_rounded_plain heap_plain)
qed

lemma numerical_gradient_plain:
  "numerical_gradient (traced f) x w = (r, w') \<Longrightarrow>
   numerical_gradient f x (plain w) = (r, plain w')"
  by (simp add: numerical_gradient_def numerical_gradient_rounded_plain)

text \<open>
  C8. If any evaluation of \<open>f\<close> raises during a gradient computation
  (\<open>gradient_function\<close>, \<open>numerical_gradient\<close>) or an optimization run
  (\<open>gradient_descent\<close>), the call raises that same exception, and the failed evaluation
  is the last one made: the call stops there and returns no gradient and no
  trajectory.
\<close>

theorem objective_failure_propagates:
  "(gradient_function (traced f) x h_arg w = (r1, w1)
      \<and> Inl e \<in> set (drop (length (outcomes w)) (outcomes w1))
      \<longrightarrow> r1 = Inl e \<and> last (outcomes w1) = Inl e
          \<and> gradient_function f x h_arg (plain w) = (Inl e, plain w1))
   \<and> (gradient_descent (traced f) init_x lr_arg n_arg w = (r2, w2)
      \<and> Inl e \<in> set (drop (length (outcomes w)) (outcomes w2))
      \<longrightarrow> r2 = Inl e \<and> last (outcomes w2) = Inl e
          \<and> gradient_descent f init_x lr_arg n_arg (plain w) = (Inl e, plain w2))
   \<and> (numerical_gradient (traced f) a w = (r3, w3)
      \<and> Inl e \<in> set (drop (length (outcomes w)) (outcomes w3))
      \<longrightarrow> r3 = Inl e \<and> last (outcomes w3) = Inl e
          \<and> numerical_gradient f a (plain w) = (Inl e, plain w3))"
proof -
  have stop: "q = Inl e \<and> last (outcomes v) = Inl e"
    if "\<exists>new. outcomes v = outcomes w @ new \<and> stops_at_failure (raised q) new"
      and "Inl e \<in> set (drop (length (outcomes w)) (outcomes v))"
    for q :: "error + 'b" and v
  proof -
    from that(1) obtain new where
      new: "outcomes v = outcomes w @ new" "stops_at_failure (raised q) new" by blast
    with that(2) have mem: "Inl e \<in> set new" by simp
    then have "new \<noteq> []" by auto
    with saf_failure [OF new(2) mem] new(1) show ?thesis by (simp add: raised_Some)
  qed
  have "r1 = Inl e \<and> last (outcomes w1) = Inl e
      \<and> gradient_function f x h_arg (plain w) = (Inl e, plain w1)"
    if "gradient_function (traced f) x h_arg w = (r1, w1)"
      and "Inl e \<in> set (drop (length (outcomes w)) (outcomes w1))"
    using stop [OF gradient_function_traced [OF that(1)] that(2)]
      gradient_function_plain [OF that(1)] by simp
  moreover have "r2 = Inl e \<and> last (outcomes w2) = Inl e
      \<and> gradient_descent f init_x lr_arg n_arg (plain w) = (Inl e, plain w2)"
    if "gradient_descent (traced f) init_x lr_arg n_arg w = (r2, w2)"
      and "Inl e \<in> set (drop (length (outcomes w)) (outcomes w2))"
  proof -
    from that(1) have "\<exists>new. outcomes w2 = outcomes w @ new \<and> stops_at_failure (raised r2) new"
      by (auto simp: gradient_descent_def Let_def intro: gd_loop_traced)
    from stop [OF this that(2)] gradient_descent_plain [OF that(1)] show ?thesis by simp
  qed
  moreover have "r3 = Inl e \<and> last (outcomes w3) = Inl e
      \<and> numerical_gradient f a (plain w) = (Inl e, plain w3)"
    if "numerical_gradient (traced f) a w = (r3, w3)"
      and "Inl e \<in> set (drop (length (outcomes w)) (outcomes w3))"
    using stop [OF numerical_gradient_traced [OF that(1)] that(2)]
      numerical_gradient_plain [OF that(1)] by simp
  ultimately show ?thesis by blast
qed

lemma failing_gradient_function_outcomes:
  "outcomes (snd (gradient_function (traced (failing_objective 1 sum_squares)) (FloatVector [3, 4]) None
       (world0 (0, []))))
     = [Inr ((3 + 1 / 100000) * (3 + 1 / 100000) + 16), Inl (Raised ''objective failed'')]"
  by (simp add: gradient_function_def traced_def failing_objective_def alloc_def world0_def
      scale_rows_def eye_def vadd_def vsub_def sum_squares_def upt_rec outcomes_def)

lemma failing_gradient_descent_outcomes:
  "outcomes (snd (gradient_descent (traced (failing_objective 2 sum_squares)) (FloatVector [3]) (Some (1 / 4))
       (Some 2) (world0 (0, []))))
     = [Inr ((3 + 1 / 100000) * (3 + 1 / 100000)), Inr ((3 - 1 / 100000) * (3 - 1 / 100000)),
        Inl (Raised ''objective failed'')]"
  by (simp add: gradient_descent_def gradient_function_def traced_def failing_objective_def alloc_def
      world0_def scale_rows_def eye_def vadd_def vsub_def smul_def sum_squares_def upt_rec
      numeral_2_eq_2 outcomes_def)

lemma failing_numerical_gradient_outcomes:
  "outcomes (snd (numerical_gradient (traced (failing_objective 1 sum_squares)) 0
       (world_with (FloatVector [3]) (0, []))))
     = [Inr ((3 + 1 / 10000) * (3 + 1 / 10000)), Inl (Raised ''objective failed'')]"
  by (simp add: numerical_gradient_exact ng_loop_Nil ng_loop_Cons traced_def failing_objective_def
      world_with_def getitem_def store_def sum_squares_def outcomes_def)

theorem objective_failure_propagates_witness:
  "(\<exists>w'. gradient_function (traced (failing_objective 1 sum_squares)) (FloatVector [3, 4]) None
            (world0 (0, [])) = (Inl (Raised ''objective failed''), w')
         \<and> length (outcomes w') = 2 \<and> last (outcomes w') = Inl (Raised ''objective failed''))
   \<and> (\<exists>w'. gradient_descent (traced (failing_objective 2 sum_squares)) (FloatVector [3]) (Some (1 / 4))
            (Some 2) (world0 (0, [])) = (Inl (Raised ''objective failed''), w')
         \<and> length (outcomes w') = 3 \<and> last (outcomes w') = Inl (Raised ''objective failed''))
   \<and> (\<exists>w'. numerical_gradient (traced (failing_objective 1 sum_squares)) 0
            (world_with (FloatVector [3]) (0, [])) = (Inl (Raised ''objective failed''), w')
         \<and> length (outcomes w') = 2 \<and> last (outcomes w') = Inl (Raised ''objective failed''))"
proof -
  let ?e = "Raised ''objective failed''"
  let ?w = "world0 (0, []) :: (nat \<times> (error + real) list) world"
  let ?v = "world_with (FloatVector [3]) (0, []) :: (nat \<times> (error + real) list) world"
  let ?gf = "gradient_function (traced (failing_objective 1 sum_squares)) (FloatVector [3, 4]) None ?w"
  let ?gd = "gradient_descent (traced (failing_objective 2 sum_squares)) (FloatVector [3]) (Some (1 / 4))
       (Some 2) ?w"
  let ?ng = "numerical_gradient (traced (failing_objective 1 sum_squares)) 0 ?v"
  have w: "outcomes ?w = []" by (simp add: outcomes_def world0_def)
  have v: "outcomes ?v = []" by (simp add: outcomes_def world_with_def)
  obtain r1 w1 where gf: "?gf = (r1, w1)" by (cases ?gf)
  with failing_gradient_function_outcomes
  have o1: "outcomes w1 = [Inr ((3 + 1 / 100000) * (3 + 1 / 100000) + 16), Inl ?e]"
    by simp
  then have "Inl ?e \<in> set (drop (length (outcomes ?w)) (outcomes w1))" by (simp add: w)
  with gf
    objective_failure_propagates [where f = "failing_objective 1 sum_squares" and x = "FloatVector [3, 4]"
      and h_arg = None and w = ?w and ?r1.0 = r1 and ?w1.0 = w1 and e = ?e, THEN conjunct1]
  have "r1 = Inl ?e \<and> last (outcomes w1) = Inl ?e" by blast
  with gf o1 have first: "\<exists>w'. ?gf = (Inl ?e, w')
         \<and> length (outcomes w') = 2 \<and> last (outcomes w') = Inl ?e" by simp
  obtain r2 w2 where gd: "?gd = (r2, w2)" by (cases ?gd)
  with failing_gradient_descent_outcomes have o2: "outcomes w2
     = [Inr ((3 + 1 / 100000) * (3 + 1 / 100000)), Inr ((3 - 1 / 100000) * (3 - 1 / 100000)), Inl ?e]"
    by simp
  then have "Inl ?e \<in> set (drop (length (outcomes ?w)) (outcomes w2))" by (simp add: w)
  with gd
    objective_failure_propagates [where f = "failing_objective 2 sum_squares" and init_x = "FloatVector [3]"
      and lr_arg = "Some (1 / 4)" and n_arg = "Some 2" and w = ?w and ?r2.0 = r2 and ?w2.0 = w2
      and e = ?e, THEN conjunct2, THEN conjunct1]
  have "r2 = Inl ?e \<and> last (outcomes w2) = Inl ?e" by blast
  with gd o2 have second: "\<exists>w'. ?gd = (Inl ?e, w')
         \<and> length (outcomes w') = 3 \<and> last (outcomes w') = Inl ?e" by simp
  obtain r3 w3 where ng: "?ng = (r3, w3)" by (cases ?ng)
  with failing_numerical_gradient_outcomes
  have o3: "outcomes w3 = [Inr ((3 + 1 / 10000) * (3 + 1 / 10000)), Inl ?e]"
    by simp
  then have "Inl ?e \<in> set (drop (length (outcomes ?v)) (outcomes w3))" by (simp add: v)
  with ng
    objective_failure_propagates [where f = "failing_objective 1 sum_squares" and a = 0
      and w = ?v and ?r3.0 = r3 and ?w3.0 = w3 and e = ?e, THEN conjunct2, THEN conjunct2]
  have "r3 = Inl ?e \<and> last (outcomes w3) = Inl ?e" by blast
  with ng o3 have third: "\<exists>w'. ?ng = (Inl ?e, w')
         \<and> length (outcomes w') = 2 \<and> last (outcomes w') = Inl ?e" by simp
  from first second third show ?thesis by blast
qed

section \<open>Properties of numerical_gradient\<close>

subsection \<open>Restoring the array\<close>














lemma numerical_gradient_raising_run:
  "numerical_gradient raising_objective 0 (world_with (FloatVector [1, 2]) ())
     = (Inl (Raised ''objective failed''), world_with (FloatVector [1 + 1 / 10000, 2]) ())"
  by (simp add: numerical_gradient_exact ng_loop_Cons raising_objective_def world_with_def
      getitem_def store_def)

text \<open>
  Two more ways in which the call ends without a gradient: on an array without
  elements the iterator raises ValueError; on an int64 array the write of a gradient
  component can raise OverflowError, and it precedes the restore (here \<open>[1]\<close> is left
  as \<open>[0]\<close>).
\<close>

lemma numerical_gradient_rounded_empty:
  "size_nd (heap w x) = 0 \<Longrightarrow> numerical_gradient_rounded fl f x w = (Inl ValueError, w)"
  by (simp add: numerical_gradient_rounded_def)

lemma numerical_gradient_overflow_run:
  "numerical_gradient (pure_objective (\<lambda>xs. 10 ^ 16 * sum_list xs)) 0 (world_with (IntVector [1]) ())
     = (Inl OverflowError, world_with (IntVector [0]) ())"
  by (simp add: numerical_gradient_exact ng_loop_Cons ng_loop_Nil pure_objective_apply world_with_def
      getitem_def store_def to_int64_def trunc_def int64_value_def)

subsection \<open>Integer arrays\<close>

text \<open>
  What follows from the three properties of float64 rounding: the step \<open>fl (1 / 10000)\<close>
  is close to \<open>10\<^sup>-\<^sup>4\<close>, twice the step does not round to zero, and for an integer \<open>k\<close>
  with \<open>|k| \<le> 2\<^sup>3\<^sup>9\<close> the floats \<open>k + h\<close> and \<open>k - h\<close> lie strictly between the
  neighbouring integers on the side of \<open>k\<close>, so that their integer parts are
  \<open>stored_plus k\<close> and \<open>stored_minus k\<close>.
\<close>

lemma fl_exact:
  "rounds_like_float64 fl \<Longrightarrow> \<bar>k\<bar> \<le> 2 ^ 53 \<Longrightarrow> fl (of_int k) = of_int k"
  unfolding rounds_like_float64_def by blast

lemma fl_mono: "rounds_like_float64 fl \<Longrightarrow> u \<le> v \<Longrightarrow> fl u \<le> fl v"
  unfolding rounds_like_float64_def by blast

lemma fl_error:
  assumes "rounds_like_float64 fl" and "1 / 1000000 \<le> \<bar>v\<bar>" and "\<bar>v\<bar> \<le> 2 ^ 40"
  shows "\<bar>fl v - v\<bar> \<le> \<bar>v\<bar> / 2 ^ 53"
proof -
  have "(1 / 2 ^ 1022 :: real) \<le> 1 / 2 ^ 20"
    by (rule divide_left_mono) (simp_all add: power_increasing)
  also have "\<dots> \<le> 1 / 1000000" by simp
  finally have lo: "1 / 2 ^ 1022 \<le> \<bar>v\<bar>" using assms(2) by linarith
  have "(2 :: real) ^ 40 \<le> 2 ^ 1023" by (rule power_increasing) simp_all
  with assms(3) have hi: "\<bar>v\<bar> \<le> 2 ^ 1023" by linarith
  from assms(1) lo hi show ?thesis unfolding rounds_like_float64_def by blast
qed

lemma fl_step:
  assumes "rounds_like_float64 fl"
  shows "9 / 100000 < fl (1 / 10000)" and "fl (1 / 10000) < 11 / 100000"
proof -
  have "\<bar>fl (1 / 10000) - 1 / 10000\<bar> \<le> \<bar>1 / 10000 :: real\<bar> / 2 ^ 53"
    by (rule fl_error [OF assms]) simp_all
  then have "\<bar>fl (1 / 10000) - 1 / 10000\<bar> \<le> 1 / 1000000" by simp
  then show "9 / 100000 < fl (1 / 10000)" and "fl (1 / 10000) < 11 / 100000" by linarith+
qed

lemma fl_double_step:
  assumes "rounds_like_float64 fl"
  shows "fl (2 * fl (1 / 10000)) \<noteq> 0"
proof -
  let ?h = "fl (1 / 10000)"
  note h = fl_step [OF assms]
  have "\<bar>fl (2 * ?h) - 2 * ?h\<bar> \<le> \<bar>2 * ?h\<bar> / 2 ^ 53"
    by (rule fl_error [OF assms]) (use h in simp_all)
  moreover have "\<bar>2 * ?h\<bar> / 2 ^ 53 \<le> ?h" using h by simp
  ultimately have "\<bar>fl (2 * ?h) - 2 * ?h\<bar> \<le> ?h" by linarith
  with h show ?thesis by linarith
qed

lemma sint_word_of_int:
  "- (2 ^ 63) \<le> k \<Longrightarrow> k < 2 ^ 63 \<Longrightarrow> sint (word_of_int k :: 64 word) = k"
  by (simp add: sint_sbintrunc' signed_take_bit_int_eq_self)

lemma to_int64_trunc:
  "- (2 ^ 63) \<le> trunc v \<Longrightarrow> trunc v < 2 ^ 63 \<Longrightarrow> to_int64 v = Inr (word_of_int (trunc v))"
  by (simp add: to_int64_def)

lemma trunc_plus_rounded:
  assumes R: "rounds_like_float64 fl" and k: "\<bar>k\<bar> \<le> 2 ^ 39"
  shows "trunc (fl (fl (of_int k) + fl (1 / 10000))) = stored_plus k"
proof -
  let ?h = "fl (1 / 10000)"
  let ?v = "of_int k + ?h :: real"
  note h = fl_step [OF R]
  from k have kr: "\<bar>of_int k :: real\<bar> \<le> 2 ^ 39"
    by (metis of_int_abs of_int_le_iff of_int_numeral of_int_power)
  from k have "\<bar>k\<bar> \<le> 2 ^ 53" by simp
  then have ex: "fl (of_int k) = of_int k" by (rule fl_exact [OF R])
  show ?thesis
  proof (cases "k < 0")
    case True
    then have k1: "of_int k \<le> (- 1 :: real)" by linarith
    from True k have "\<bar>k + 1\<bar> \<le> 2 ^ 53" by simp
    then have "fl (of_int (k + 1)) = of_int (k + 1)" by (rule fl_exact [OF R])
    moreover have "fl ?v \<le> fl (of_int (k + 1))" by (rule fl_mono [OF R]) (use h in simp)
    ultimately have up: "fl ?v \<le> of_int k + 1" by simp
    have "\<bar>fl ?v - ?v\<bar> \<le> \<bar>?v\<bar> / 2 ^ 53"
      by (rule fl_error [OF R]) (use k1 kr h in simp_all)
    moreover have "\<bar>?v\<bar> / 2 ^ 53 \<le> 2 ^ 39 / 2 ^ 53"
      by (rule divide_right_mono) (use k1 kr h in simp_all)
    moreover have "(2 ^ 39 / 2 ^ 53 :: real) < 9 / 100000" by simp
    ultimately have lo: "of_int k < fl ?v" using h by linarith
    from lo up have "\<lceil>fl ?v\<rceil> = k + 1" by (simp add: ceiling_unique)
    moreover have "\<lfloor>fl ?v\<rfloor> = k + 1" if "0 \<le> fl ?v"
    proof -
      from that up k1 have "fl ?v = of_int (k + 1)" by simp
      then show ?thesis by (simp only: floor_of_int)
    qed
    ultimately show ?thesis using True by (simp add: trunc_def stored_plus_def ex)
  next
    case False
    then have k0: "(0 :: real) \<le> of_int k" by simp
    have "fl (of_int k) \<le> fl ?v" by (rule fl_mono [OF R]) (use h in simp)
    then have lo: "of_int k \<le> fl ?v" by (simp add: ex)
    have "\<bar>fl ?v - ?v\<bar> \<le> \<bar>?v\<bar> / 2 ^ 53"
      by (rule fl_error [OF R]) (use k0 kr h in simp_all)
    moreover have "\<bar>?v\<bar> / 2 ^ 53 \<le> 2 ^ 40 / 2 ^ 53"
      by (rule divide_right_mono) (use k0 kr h in simp_all)
    moreover have "(2 ^ 40 / 2 ^ 53 :: real) < 1 / 2" by simp
    ultimately have up: "fl ?v < of_int k + 1" using h by linarith
    from lo up have "\<lfloor>fl ?v\<rfloor> = k" by (simp add: floor_unique)
    moreover from lo k0 have "0 \<le> fl ?v" by linarith
    ultimately show ?thesis using False by (simp add: trunc_def stored_plus_def ex)
  qed
qed

lemma below_zero: "\<bar>u - v\<bar> \<le> \<bar>v\<bar> / 2 \<Longrightarrow> v < 0 \<Longrightarrow> u < (0 :: real)"
  by linarith

lemma trunc_minus_rounded:
  assumes R: "rounds_like_float64 fl" and k: "\<bar>k\<bar> \<le> 2 ^ 39"
  shows "trunc (fl (fl (of_int k) - fl (1 / 10000))) = stored_minus k"
proof -
  let ?h = "fl (1 / 10000)"
  let ?v = "of_int k - ?h :: real"
  note h = fl_step [OF R]
  from k have kr: "\<bar>of_int k :: real\<bar> \<le> 2 ^ 39"
    by (metis of_int_abs of_int_le_iff of_int_numeral of_int_power)
  from k have "\<bar>k\<bar> \<le> 2 ^ 53" by simp
  then have ex: "fl (of_int k) = of_int k" by (rule fl_exact [OF R])
  show ?thesis
  proof (cases "0 < k")
    case True
    then have k1: "(1 :: real) \<le> of_int k" by linarith
    from True k have "\<bar>k - 1\<bar> \<le> 2 ^ 53" by simp
    then have "fl (of_int (k - 1)) = of_int (k - 1)" by (rule fl_exact [OF R])
    moreover have "fl (of_int (k - 1)) \<le> fl ?v" by (rule fl_mono [OF R]) (use h in simp)
    ultimately have lo: "of_int k - 1 \<le> fl ?v" by simp
    have "\<bar>fl ?v - ?v\<bar> \<le> \<bar>?v\<bar> / 2 ^ 53"
      by (rule fl_error [OF R]) (use k1 kr h in simp_all)
    moreover have "\<bar>?v\<bar> / 2 ^ 53 \<le> 2 ^ 39 / 2 ^ 53"
      by (rule divide_right_mono) (use k1 kr h in simp_all)
    moreover have "(2 ^ 39 / 2 ^ 53 :: real) < 9 / 100000" by simp
    ultimately have up: "fl ?v < of_int k" using h by linarith
    from lo up have "\<lfloor>fl ?v\<rfloor> = k - 1" by (simp add: floor_unique)
    moreover from lo k1 have "0 \<le> fl ?v" by linarith
    ultimately show ?thesis using True by (simp add: trunc_def stored_minus_def ex)
  next
    case False
    then have k0: "of_int k \<le> (0 :: real)" by simp
    have "fl ?v \<le> fl (of_int k)" by (rule fl_mono [OF R]) (use h in simp)
    then have up: "fl ?v \<le> of_int k" by (simp add: ex)
    have "\<bar>fl ?v - ?v\<bar> \<le> \<bar>?v\<bar> / 2 ^ 53"
      by (rule fl_error [OF R]) (use k0 kr h in simp_all)
    moreover have "\<bar>?v\<bar> / 2 ^ 53 \<le> \<bar>?v\<bar> / 2"
      by (rule divide_left_mono) simp_all
    moreover have "\<bar>?v\<bar> / 2 ^ 53 \<le> 2 ^ 40 / 2 ^ 53"
      by (rule divide_right_mono) (use k0 kr h in simp_all)
    moreover have "(2 ^ 40 / 2 ^ 53 :: real) < 1 / 2" by simp
    ultimately have e1: "\<bar>fl ?v - ?v\<bar> \<le> \<bar>?v\<bar> / 2" and e2: "\<bar>fl ?v - ?v\<bar> < 1 / 2"
      by linarith+
    from h k0 have vneg: "?v < 0" by linarith
    with e1 have neg: "fl ?v < 0" by (rule below_zero)
    from e2 h k0 have lo: "of_int k - 1 < fl ?v" by linarith
    from lo up have "\<lceil>fl ?v\<rceil> = k" by (simp add: ceiling_unique)
    with neg show ?thesis using False by (simp add: trunc_def stored_minus_def ex)
  qed
qed

lemma elems_update:
  "- (2 ^ 63) \<le> k \<Longrightarrow> k < 2 ^ 63 \<Longrightarrow>
   map int64_value (vs[i := word_of_int k]) = map of_int ((map sint vs)[i := k])"
proof -
  have e: "int64_value = of_int \<circ> sint" by (rule ext) (simp add: int64_value_def)
  assume "- (2 ^ 63) \<le> k" and "k < 2 ^ 63"
  then show ?thesis by (simp add: map_update e sint_word_of_int del: of_int_sint)
qed

lemma stored_range:
  assumes "\<bar>k\<bar> \<le> 2 ^ 39"
  shows "- (2 ^ 63) \<le> stored_plus k" and "stored_plus k < 2 ^ 63"
    and "- (2 ^ 63) \<le> stored_minus k" and "stored_minus k < 2 ^ 63"
  using assms by (auto simp: stored_plus_def stored_minus_def)

lemma ng_loop_rounded_int_step:
  assumes R: "rounds_like_float64 fl"
    and x: "heap w x = IntVector vs" and i: "i < length vs" and gs: "length gs = length vs"
    and b: "\<bar>sint (vs ! i)\<bar> \<le> 2 ^ 39"
    and q: "- (2 ^ 63) \<le> trunc (rounded_quotient fl g (map sint vs) i)"
      "trunc (rounded_quotient fl g (map sint vs) i) < 2 ^ 63"
  shows "ng_loop_rounded fl (logged_objective g) x (fl (1 / 10000)) (i # rest) (IntVector gs) w
     = ng_loop_rounded fl (logged_objective g) x (fl (1 / 10000)) rest
         (IntVector (gs[i := word_of_int (trunc (rounded_quotient fl g (map sint vs) i))]))
         (w\<lparr>env := env w @ [map of_int ((map sint vs)[i := stored_plus (map sint vs ! i)]),
                              map of_int ((map sint vs)[i := stored_minus (map sint vs ! i)])]\<rparr>)"
proof -
  let ?h = "fl (1 / 10000)"
  let ?ks = "map sint vs"
  let ?k = "?ks ! i"
  let ?A = "map of_int (?ks[i := stored_plus ?k]) :: real list"
  let ?B = "map of_int (?ks[i := stored_minus ?k]) :: real list"
  let ?a1 = "IntVector (vs[i := word_of_int (stored_plus ?k)])"
  let ?a2 = "IntVector (vs[i := word_of_int (stored_minus ?k)])"
  let ?w1 = "(store x ?a1 w)\<lparr>env := env (store x ?a1 w) @ [?A]\<rparr>"
  let ?w2 = "(store x ?a2 ?w1)\<lparr>env := env (store x ?a2 ?w1) @ [?B]\<rparr>"
  let ?q = "rounded_quotient fl g ?ks i"
  from i have k: "?k = sint (vs ! i)" by simp
  from b k have b': "\<bar>?k\<bar> \<le> 2 ^ 39" by simp
  have tmp: "int64_value (vs ! i) = of_int ?k" by (simp only: int64_value_def k)
  note rp = stored_range(1,2) [OF b'] and rm = stored_range(3,4) [OF b']
  have p: "to_int64 (fl (fl (of_int ?k) + ?h)) = Inr (word_of_int (stored_plus ?k))"
    using to_int64_trunc [of "fl (fl (of_int ?k) + ?h)"] rp
    by (simp only: trunc_plus_rounded [OF R b'])
  have m: "to_int64 (fl (fl (of_int ?k) - ?h)) = Inr (word_of_int (stored_minus ?k))"
    using to_int64_trunc [of "fl (fl (of_int ?k) - ?h)"] rm
    by (simp only: trunc_minus_rounded [OF R b'])
  have g0: "getitem (heap w x) i = Inr (int64_value (vs ! i))"
    using x i by (simp add: getitem_def)
  have s1: "setitem (heap w x) i (fl (float_of fl (heap w x) (int64_value (vs ! i)) + ?h)) = Inr ?a1"
    using i by (simp only: x float_of.simps tmp setitem.simps p) simp
  have eA: "elems ?a1 = ?A" using rp by (simp only: elems.simps elems_update)
  have f1: "logged_objective g x (store x ?a1 w) = (Inr (g ?A), ?w1)"
    by (simp only: logged_objective_apply heap_store eA)
  have h1: "heap ?w1 x = ?a1" by (simp add: store_def)
  have s2: "setitem (heap ?w1 x) i (fl (float_of fl (heap w x) (int64_value (vs ! i)) - ?h)) = Inr ?a2"
    using i by (simp only: h1 x float_of.simps tmp setitem.simps m) simp
  have eB: "elems ?a2 = ?B" using rm by (simp only: elems.simps elems_update)
  have f2: "logged_objective g x (store x ?a2 ?w1) = (Inr (g ?B), ?w2)"
    by (simp only: logged_objective_apply heap_store eB)
  have h2: "heap ?w2 x = ?a2" by (simp add: store_def)
  have qq: "fl (fl (g ?A - g ?B) / fl (2 * ?h)) = ?q" by (simp only: rounded_quotient_def)
  have s3: "setitem (IntVector gs) i (fl (fl (g ?A - g ?B) / fl (2 * ?h)))
      = Inr (IntVector (gs[i := word_of_int (trunc ?q)]))"
    using i gs to_int64_trunc [OF q] by (simp only: qq setitem.simps) simp
  have s4: "setitem (heap ?w2 x) i (int64_value (vs ! i)) = Inr (IntVector vs)"
    using i by (simp only: h2 setitem.simps to_int64_value) simp
  have undo: "store x (IntVector vs) ?w2 = w\<lparr>env := env w @ [?A, ?B]\<rparr>"
  proof -
    from x have "(heap w)(x := IntVector vs) = heap w" by (metis fun_upd_triv)
    then show ?thesis by (simp add: store_def)
  qed
  have z: "fl (2 * ?h) \<noteq> 0" by (rule fl_double_step [OF R])
  show ?thesis
    by (simp only: ng_loop_rounded.simps g0 s1 f1 s2 f2 s3 s4 undo z sum.case prod.case if_False)
qed

lemma ng_loop_rounded_int:
  assumes R: "rounds_like_float64 fl"
    and b: "\<forall>v\<in>set vs. \<bar>sint v\<bar> \<le> 2 ^ 39"
    and q: "\<forall>i<length vs. - (2 ^ 63) \<le> trunc (rounded_quotient fl g (map sint vs) i)
              \<and> trunc (rounded_quotient fl g (map sint vs) i) < 2 ^ 63"
  shows "heap w x = IntVector vs \<Longrightarrow> \<forall>i\<in>set is. i < length vs \<Longrightarrow> length gs = length vs \<Longrightarrow>
     ng_loop_rounded fl (logged_objective g) x (fl (1 / 10000)) is (IntVector gs) w
       = (Inr (IntVector (fold (\<lambda>i gr. gr[i := word_of_int (trunc (rounded_quotient fl g (map sint vs) i))]) is gs)),
          w\<lparr>env := env w @ concat (map (\<lambda>i. [map of_int ((map sint vs)[i := stored_plus (map sint vs ! i)]),
                              map of_int ((map sint vs)[i := stored_minus (map sint vs ! i)])]) is)\<rparr>)"
proof (induction "is" arbitrary: gs w)
  case Nil
  then show ?case by simp
next
  case (Cons i rest)
  let ?ks = "map sint vs"
  let ?w = "w\<lparr>env := env w @ [map of_int (?ks[i := stored_plus (?ks ! i)]),
                              map of_int (?ks[i := stored_minus (?ks ! i)])]\<rparr>"
  from Cons.prems have i: "i < length vs" by simp
  from b i have bi: "\<bar>sint (vs ! i)\<bar> \<le> 2 ^ 39" by simp
  from q i have qi: "- (2 ^ 63) \<le> trunc (rounded_quotient fl g ?ks i)"
      "trunc (rounded_quotient fl g ?ks i) < 2 ^ 63" by simp_all
  have hw: "heap ?w x = IntVector vs" using Cons.prems(1) by simp
  from Cons.prems have rest: "\<forall>i\<in>set rest. i < length vs" by simp
  have len: "length (gs[i := word_of_int (trunc (rounded_quotient fl g ?ks i))]) = length vs"
    using Cons.prems(3) by simp
  show ?case
    by (simp only: ng_loop_rounded_int_step [OF R Cons.prems(1) i Cons.prems(3) bi qi]
        Cons.IH [OF hw rest len]) simp
qed

lemma rounds_like_float64_exact: "rounds_like_float64 (\<lambda>v. v)"
  by (simp add: rounds_like_float64_def)

text \<open>
  C10 (as amended). \<open>numerical_gradient\<close> does not coerce its input to float: on an
  int64 array every write goes through the element type. For every rounding \<open>fl\<close> with
  the properties of float64, every int64 array \<open>x\<close> with at least one element and
  \<open>|x[i]| \<le> 2\<^sup>3\<^sup>9\<close>, and every function \<open>g\<close> of the values (as a callable that logs
  its arguments) whose float quotients have int64 integer parts: the stored \<open>x[i] + h\<close>
  is \<open>x[i]\<close> for \<open>x[i] \<ge> 0\<close> and \<open>x[i] + 1\<close> for \<open>x[i] < 0\<close>; the stored \<open>x[i] - h\<close> is
  \<open>x[i] - 1\<close> for \<open>x[i] > 0\<close> and \<open>x[i]\<close> otherwise; \<open>g\<close> is evaluated at exactly these
  \<open>2n\<close> integer arrays, in order; the result is the int64 array of the integer parts
  of the float quotients; and \<open>x\<close> is restored. \<open>gradient_function\<close> on the same values
  evaluates \<open>g\<close> at the float points \<open>x \<plusminus> 10\<^sup>-\<^sup>5 e\<^sub>i\<close> and returns the float central
  differences (in exact arithmetic, as in C2).
\<close>

theorem numerical_gradient_int_array:
  assumes "rounds_like_float64 fl"
    and "heap w x = IntVector vs" and "vs \<noteq> []"
    and "\<forall>v\<in>set vs. \<bar>sint v\<bar> \<le> 2 ^ 39"
    and "\<forall>i<length vs. - (2 ^ 63) \<le> trunc (rounded_quotient fl g (map sint vs) i)
           \<and> trunc (rounded_quotient fl g (map sint vs) i) < 2 ^ 63"
  shows "numerical_gradient_rounded fl (logged_objective g) x w
       = (Inr (IntVector (map (\<lambda>i. word_of_int (trunc (rounded_quotient fl g (map sint vs) i)))
                 [0..<length vs])),
          w\<lparr>env := env w @ int_probes (map sint vs)\<rparr>)
     \<and> (\<exists>w'. gradient_function (logged_objective g) (IntVector vs) None w
            = (Inr (FloatVector (central_gradient g (map int64_value vs) (1 / 100000))), w')
          \<and> env w' = env w @ probes (map int64_value vs) (1 / 100000))"
proof
  have "ng_loop_rounded fl (logged_objective g) x (fl (1 / 10000)) [0..<length vs]
          (IntVector (replicate (length vs) 0)) w
       = (Inr (IntVector (fold (\<lambda>i gr. gr[i := word_of_int (trunc (rounded_quotient fl g (map sint vs) i))])
                 [0..<length vs] (replicate (length vs) 0))),
          w\<lparr>env := env w @ concat (map (\<lambda>i. [map of_int ((map sint vs)[i := stored_plus (map sint vs ! i)]),
                              map of_int ((map sint vs)[i := stored_minus (map sint vs ! i)])]) [0..<length vs])\<rparr>)"
    by (rule ng_loop_rounded_int [OF assms(1,4,5,2)]) simp_all
  then show "numerical_gradient_rounded fl (logged_objective g) x w
       = (Inr (IntVector (map (\<lambda>i. word_of_int (trunc (rounded_quotient fl g (map sint vs) i)))
                 [0..<length vs])),
          w\<lparr>env := env w @ int_probes (map sint vs)\<rparr>)"
    using assms(3) by (simp add: numerical_gradient_rounded_def assms(2) fold_update_all int_probes_def)
next
  have h: "(1 / 100000 :: real) \<noteq> 0" by simp
  from gradient_function_logged [OF h, of "IntVector vs" "length vs" g w]
  show "\<exists>w'. gradient_function (logged_objective g) (IntVector vs) None w
            = (Inr (FloatVector (central_gradient g (map int64_value vs) (1 / 100000))), w')
          \<and> env w' = env w @ probes (map int64_value vs) (1 / 100000)"
    by (simp add: gradient_function_default)
qed

lemma rounded_quotient_example:
  "rounded_quotient (\<lambda>v. v) sum_squares [3, - 3] 0 = 25000"
  "rounded_quotient (\<lambda>v. v) sum_squares [3, - 3] (Suc 0) = - 25000"
  by (simp_all add: rounded_quotient_def stored_plus_def stored_minus_def sum_squares_def)

theorem numerical_gradient_int_array_witness:
  "rounds_like_float64 (\<lambda>v. v)
   \<and> heap (world_with (IntVector [3, - 3]) ([] :: real list list)) 0 = IntVector [3, - 3]
   \<and> numerical_gradient_rounded (\<lambda>v. v) (logged_objective sum_squares) 0
         (world_with (IntVector [3, - 3]) [])
       = (Inr (IntVector [25000, - 25000]),
          world_with (IntVector [3, - 3]) [[3, - 3], [2, - 3], [3, - 2], [3, - 3]])
   \<and> (\<exists>w'. gradient_function (logged_objective sum_squares) (IntVector [3, - 3]) None
              (world_with (IntVector [3, - 3]) [])
            = (Inr (FloatVector [6, - 6]), w'))"
proof -
  let ?w = "world_with (IntVector [3, - 3]) ([] :: real list list)"
  have h: "heap ?w 0 = IntVector [3, - 3]" by (simp add: world_with_def)
  have n: "[3, - 3] \<noteq> ([] :: 64 word list)" by simp
  have b: "\<forall>v\<in>set [3, - 3 :: 64 word]. \<bar>sint v\<bar> \<le> 2 ^ 39" by simp
  have ks: "map sint [3, - 3 :: 64 word] = [3, - 3]" by simp
  have q: "\<forall>i<length [3, - 3 :: 64 word].
      - (2 ^ 63) \<le> trunc (rounded_quotient (\<lambda>v. v) sum_squares (map sint [3, - 3 :: 64 word]) i)
      \<and> trunc (rounded_quotient (\<lambda>v. v) sum_squares (map sint [3, - 3 :: 64 word]) i) < 2 ^ 63"
    by (simp add: ks less_Suc_eq rounded_quotient_example trunc_def numeral_2_eq_2)
  have p: "int_probes [3, - 3] = [[3, - 3], [2, - 3], [3, - 2], [3, - 3]]"
    by (simp add: int_probes_def stored_plus_def stored_minus_def upt_rec)
  have c: "central_gradient sum_squares [3, - 3] (1 / 100000) = [6, - 6]"
    by (simp add: central_gradient_def unit_vec_def smul_def vadd_def vsub_def sum_squares_def
        upt_rec field_simps)
  have e: "?w\<lparr>env := env ?w @ [[3, - 3], [2, - 3], [3, - 2], [3, - 3]]\<rparr>
      = world_with (IntVector [3, - 3]) [[3, - 3], [2, - 3], [3, - 2], [3, - 3]]"
    by (simp add: world_with_def)
  have v: "int64_value 3 = 3" "int64_value (- 3) = - 3" by (simp_all add: int64_value_def)
  from numerical_gradient_int_array [OF rounds_like_float64_exact h n b q] h
  show ?thesis
    by (auto simp: ks p c e v rounded_quotient_example trunc_def upt_rec rounds_like_float64_exact)
qed

text \<open>
  The claim C10 as stated has \<open>x[i] + h\<close> truncate back to \<open>x[i]\<close> and \<open>x[i] - h\<close> to
  another integer. At \<open>x = [-3]\<close> the objective sees \<open>[-2]\<close> and then \<open>[-3]\<close>.
\<close>

theorem numerical_gradient_negative_int_counterexample:
  "\<not> (env (snd (numerical_gradient (logged_objective sum_squares) 0 (world_with (IntVector [- 3]) []))) ! 0 = [- 3]
      \<and> env (snd (numerical_gradient (logged_objective sum_squares) 0 (world_with (IntVector [- 3]) []))) ! 1 \<noteq> [- 3])"
proof -
  have "env (snd (numerical_gradient (logged_objective sum_squares) 0 (world_with (IntVector [- 3]) [])))
      = [[- 2], [- 3]]"
    by (simp add: numerical_gradient_exact ng_loop_Nil ng_loop_Cons logged_objective_apply
        world_with_def getitem_def store_def to_int64_def trunc_def int64_value_def sum_squares_def)
  then show ?thesis by simp
qed

end
